theory Spec2Isabelle
  imports Complex_Main "HOL-Library.AList"
begin

section \<open>Numbers and strings\<close>

text \<open>
  JavaScript template literals render a non-negative integer in decimal.
  \<open>toString_nat\<close> is that rendering; \<open>snapshotId\<close>, \<open>idCounter\<close> and the page ids are
  counters that start at 0 or 1 and only grow, so \<open>nat\<close> is their type here (the
  2^53 precision limit of a JavaScript number is not modelled).
\<close>

definition digit_char :: "nat \<Rightarrow> char" where
  "digit_char d = char_of (48 + d)"

fun toString_nat :: "nat \<Rightarrow> string" where
  "toString_nat n =
     (if n < 10 then [digit_char n]
      else toString_nat (n div 10) @ [digit_char (n mod 10)])"

declare toString_nat.simps [simp del]

text \<open>\<open>String(undefined)\<close> inside a template literal.\<close>

definition toString_opt :: "('a \<Rightarrow> string) \<Rightarrow> 'a option \<Rightarrow> string" where
  "toString_opt f x = (case x of None \<Rightarrow> ''undefined'' | Some v \<Rightarrow> f v)"

section \<open>Accessibility nodes and snapshots\<close>

text \<open>
  A \<open>value\<close> of a serialized accessibility node is a string or a number.
\<close>

datatype AXValue = StrValue string | NumValue int

text \<open>
  \<open>SerializedAXNode\<close> as the driver returns it: the untyped \<open>loaderId\<close> and
  \<open>backendNodeId\<close>, \<open>role\<close>, the optional \<open>name\<close> and \<open>value\<close>, and the children
  (an absent \<open>children\<close> field is the empty list: \<open>assignIds\<close> reads it as \<open>[]\<close>).
\<close>

datatype SerializedAXNode =
  AXNode (ax_loaderId: "string option") (ax_backendNodeId: "nat option")
         (ax_role: string) (ax_name: "string option") (ax_value: "AXValue option")
         (ax_children: "SerializedAXNode list")

text \<open>\<open>TextSnapshotNode\<close>: the serialized node with its \<open>id\<close> and converted children.\<close>

datatype TextSnapshotNode =
  SnapNode (node_id: string)
           (loaderId: "string option") (backendNodeId: "nat option")
           (role: string) (name: "string option") (node_value: "AXValue option")
           (children: "TextSnapshotNode list")

record TextSnapshot =
  root :: TextSnapshotNode
  idToNode :: "(string \<times> TextSnapshotNode) list"
  snapshotId :: string
  selectedElementUid :: "string option"
  hasSelectedElement :: bool
  verbose :: bool

text \<open>
  A JavaScript \<open>Map\<close> is an association list in insertion order: \<open>has\<close>/\<open>get\<close> are
  \<open>map_of\<close>, \<open>set\<close> is \<open>AList.update\<close> (an existing key keeps its place, a new one
  goes to the end), \<open>delete\<close> is \<open>AList.delete\<close>.
\<close>

text \<open>The key \<open>`${node.loaderId}_${node.backendNodeId}`\<close>.\<close>

definition uniqueBackendId :: "string option \<Rightarrow> nat option \<Rightarrow> string" where
  "uniqueBackendId l b = toString_opt (\<lambda>s. s) l @ ''_'' @ toString_opt toString_nat b"

text \<open>The minted identifier \<open>`${snapshotId}_${idCounter++}`\<close>.\<close>

definition mintId :: "nat \<Rightarrow> nat \<Rightarrow> string" where
  "mintId sid n = toString_nat sid @ ''_'' @ toString_nat n"

text \<open>
  The variables that the closure \<open>assignIds\<close> captures and mutates: the page's
  sticky map \<open>uniqueBackendNodeIdToMcpId\<close> (here \<open>uniqueIdToMcpId\<close>), the ordinal
  counter, the id index \<open>idToNode\<close> under construction and the set of keys seen.
\<close>

record IdState =
  uniqueIdToMcpId :: "(string \<times> string) list"
  idCounter :: nat
  idToNodeAcc :: "(string \<times> TextSnapshotNode) list"
  seenUniqueIds :: "string list"

text \<open>The branch of \<open>assignIds\<close> that reuses or mints the identifier and records the key.\<close>

definition assignId :: "nat \<Rightarrow> string \<Rightarrow> IdState \<Rightarrow> string \<times> IdState" where
  "assignId sid key st =
     (case map_of (uniqueIdToMcpId st) key of
        Some i \<Rightarrow> (i, st\<lparr>seenUniqueIds := List.insert key (seenUniqueIds st)\<rparr>)
      | None \<Rightarrow>
          (mintId sid (idCounter st),
           st\<lparr>uniqueIdToMcpId :=
                 AList.update key (mintId sid (idCounter st)) (uniqueIdToMcpId st),
              idCounter := Suc (idCounter st),
              seenUniqueIds := List.insert key (seenUniqueIds st)\<rparr>))"

text \<open>
  The option special case: \<open>if (node.role === 'option') { if (node.name) value = node.name }\<close>.
  A name is truthy when it is present and not the empty string.
\<close>

definition optionValue :: "string \<Rightarrow> string option \<Rightarrow> AXValue option \<Rightarrow> AXValue option" where
  "optionValue r n v =
     (if r = ''option'' then
        (case n of
           Some optionText \<Rightarrow> (if optionText \<noteq> [] then Some (StrValue optionText) else v)
         | None \<Rightarrow> v)
      else v)"

fun assignIds :: "nat \<Rightarrow> SerializedAXNode \<Rightarrow> IdState \<Rightarrow> TextSnapshotNode \<times> IdState"
  and assignIdsList :: "nat \<Rightarrow> SerializedAXNode list \<Rightarrow> IdState \<Rightarrow> TextSnapshotNode list \<times> IdState"
where
  "assignIds sid (AXNode l b r n v cs) st =
     (case assignId sid (uniqueBackendId l b) st of
        (i, st1) \<Rightarrow>
          (case assignIdsList sid cs st1 of
             (cs', st2) \<Rightarrow>
               (SnapNode i l b r n (optionValue r n v) cs',
                st2\<lparr>idToNodeAcc :=
                      AList.update i (SnapNode i l b r n (optionValue r n v) cs') (idToNodeAcc st2)\<rparr>)))"
| "assignIdsList sid [] st = ([], st)"
| "assignIdsList sid (c # cs) st =
     (case assignIds sid c st of
        (c', st1) \<Rightarrow>
          (case assignIdsList sid cs st1 of
             (cs', st2) \<Rightarrow> (c' # cs', st2)))"

text \<open>
  The clean-up loop: every key of the sticky map that was not seen is deleted.
\<close>

definition cleanUp :: "string list \<Rightarrow> (string \<times> string) list \<Rightarrow> (string \<times> string) list" where
  "cleanUp seen m =
     fold (\<lambda>key acc. if key \<in> set seen then acc else AList.delete key acc) (map fst m) m"

section \<open>Session state\<close>

text \<open>
  A \<open>Page\<close> is an opaque driver object; its browsing context is fixed when it is
  created, so the handle carries it. A browsing context is a number.
\<close>

datatype Page = Page (pageHandle: nat) (browserContext: nat)

record Viewport =
  width :: nat
  height :: nat
  deviceScaleFactor :: "rat option"
  isMobile :: "bool option"
  hasTouch :: "bool option"
  isLandscape :: "bool option"

record EmulationSettings =
  networkConditions :: "string option"
  cpuThrottlingRate :: "rat option"
  geolocation :: "(rat \<times> rat) option"
  userAgent :: "string option"
  colorScheme :: "string option"
  viewport :: "Viewport option"

definition noEmulation :: EmulationSettings where
  "noEmulation = \<lparr>networkConditions = None, cpuThrottlingRate = None, geolocation = None,
     userAgent = None, colorScheme = None, viewport = None\<rparr>"

text \<open>
  \<open>McpPage\<close>, the per-page record. The paired DevTools window and the captured
  dialog are not modelled: no operation below reads them.
\<close>

record McpPage =
  mcp_id :: nat
  textSnapshot :: "TextSnapshot option"
  uniqueBackendNodeIdToMcpId :: "(string \<times> string) list"
  emulationSettings :: EmulationSettings
  isolatedContextName :: "string option"

definition newMcpPage :: "nat \<Rightarrow> McpPage" where
  "newMcpPage i = \<lparr>mcp_id = i, textSnapshot = None, uniqueBackendNodeIdToMcpId = [],
     emulationSettings = noEmulation, isolatedContextName = None\<rparr>"

text \<open>The getters \<open>networkConditions\<close> and \<open>cpuThrottlingRate\<close> of \<open>McpPage\<close>.\<close>

definition mcp_networkConditions :: "McpPage \<Rightarrow> string option" where
  "mcp_networkConditions mp = networkConditions (emulationSettings mp)"

definition mcp_cpuThrottlingRate :: "McpPage \<Rightarrow> rat" where
  "mcp_cpuThrottlingRate mp =
     (case cpuThrottlingRate (emulationSettings mp) of None \<Rightarrow> 1 | Some r \<Rightarrow> r)"

text \<open>
  The calls that the session manager issues to the driver and whose outcome it does
  not read back, in the order issued.
\<close>

datatype DriverCall =
    EmulateFocusedPage Page bool
  | OnDialog Page
  | OffDialog Page
  | EmulateNetworkConditions Page "string option"
  | EmulateCPUThrottling Page rat
  | SetGeolocation Page rat rat
  | SetUserAgent Page "string option"
  | EmulateMediaFeatures Page string
  | SetViewport Page "Viewport option"
  | ClosePage Page
  | NewPage Page "bool option"
  | CreateBrowserContext nat

text \<open>
  The driver's side of the world, as far as the session manager reads it:
  \<open>browser.pages()\<close>, \<open>page.isClosed()\<close>, \<open>page.url()\<close>, the browsing contexts,
  the per-page default and navigation timeouts, and the log of calls issued.
  Driver calls are taken to succeed.
\<close>

record Browser =
  browserPages :: "Page list"
  closedPages :: "Page list"
  pageUrls :: "(Page \<times> string) list"
  defaultBrowserContext :: nat
  browserContexts :: "nat list"
  closedContexts :: "nat list"
  defaultTimeouts :: "(Page \<times> rat) list"
  navigationTimeouts :: "(Page \<times> rat) list"
  calls :: "DriverCall list"
  nextHandle :: nat
  nextContext :: nat

definition isClosed :: "Browser \<Rightarrow> Page \<Rightarrow> bool" where
  "isClosed b p = (p \<in> set (closedPages b))"

definition url :: "Browser \<Rightarrow> Page \<Rightarrow> string" where
  "url b p = (case map_of (pageUrls b) p of None \<Rightarrow> [] | Some u \<Rightarrow> u)"

definition startsWith :: "string \<Rightarrow> string \<Rightarrow> bool" where
  "startsWith s pre = (take (length pre) s = pre)"

definition call :: "DriverCall \<Rightarrow> Browser \<Rightarrow> Browser" where
  "call d b = b\<lparr>calls := calls b @ [d]\<rparr>"

text \<open>The fields of \<open>McpContext\<close> that the operations below read or write.\<close>

record McpContext =
  isolatedContexts :: "(string \<times> nat) list"
  nextIsolatedContextId :: nat
  pages :: "Page list"
  mcpPages :: "(Page \<times> McpPage) list"
  selectedPage :: "Page option"
  focusedPagePerContext :: "(nat \<times> Page) list"
  requestPage :: "Page option"
  nextPageId :: nat
  nextSnapshotId :: nat
  experimentalDevToolsDebugging :: bool

text \<open>
  Every \<open>throw new Error(...)\<close> of the modelled operations, one constructor for
  each message template, with the values the template interpolates
  (an absent page id, printed \<open>?\<close> or \<open>undefined\<close>, is \<open>None\<close>):
  \<^item> \<open>LastPageError\<close>: \<open>CLOSE_PAGE_ERROR\<close>, "The last open page cannot be closed. It is fine to keep it open."
  \<^item> \<open>NoPageFound\<close>: "No page found"
  \<^item> \<open>NoPageSelected\<close>: "No page selected"
  \<^item> \<open>SelectedPageClosed\<close>: "The selected page has been closed. Call list_pages to see open pages."
  \<^item> \<open>NoMcpPageFound\<close>: "No McpPage found for the given page."
  \<^item> \<open>NotActivePage t f\<close>: "Page t is not the active page in its browser context (page f is). Call select_page with pageId t first."
  \<^item> \<open>NoSnapshotForPage i\<close>: "No snapshot found for page i. Use take_snapshot to capture one."
  \<^item> \<open>UidNotOnPage u i\<close>: "Element uid "u" not found on page i."
  \<^item> \<open>UidOnOtherPage u t s\<close>: "Element uid "u" belongs to page t, but page s is currently selected. Call select_page with pageId t first."
  \<^item> \<open>NoSnapshotFound\<close>: "No snapshot found. Use take_snapshot to capture one."
  \<^item> \<open>NoSuchElement\<close>: "No such element found in any snapshot."
  \<^item> \<open>ElementGone u\<close>: "Element with uid u no longer exists on the page."
\<close>

datatype error =
    LastPageError
  | NoPageFound
  | NoPageSelected
  | SelectedPageClosed
  | NoMcpPageFound
  | NotActivePage "nat option" "nat option"
  | NoSnapshotForPage "nat option"
  | UidNotOnPage string nat
  | UidOnOtherPage string nat "nat option"
  | NoSnapshotFound
  | NoSuchElement
  | ElementGone string

section \<open>Page resolution\<close>

definition getSelectedPage :: "McpContext \<Rightarrow> Browser \<Rightarrow> error + Page" where
  "getSelectedPage c b =
     (case selectedPage c of
        None \<Rightarrow> Inl NoPageSelected
      | Some page \<Rightarrow> if isClosed b page then Inl SelectedPageClosed else Inr page)"

definition getPageId :: "McpContext \<Rightarrow> Page \<Rightarrow> nat option" where
  "getPageId c page = map_option mcp_id (map_of (mcpPages c) page)"

definition getPageById :: "McpContext \<Rightarrow> nat \<Rightarrow> error + Page" where
  "getPageById c pageId =
     (case List.find (\<lambda>p. getPageId c p = Some pageId) (pages c) of
        None \<Rightarrow> Inl NoPageFound
      | Some page \<Rightarrow> Inr page)"

definition getMcpPage :: "McpContext \<Rightarrow> Page \<Rightarrow> error + McpPage" where
  "getMcpPage c page =
     (case map_of (mcpPages c) page of
        None \<Rightarrow> Inl NoMcpPageFound
      | Some mcpPage \<Rightarrow> Inr mcpPage)"

definition getSelectedMcpPage :: "McpContext \<Rightarrow> Browser \<Rightarrow> error + McpPage" where
  "getSelectedMcpPage c b =
     (case getSelectedPage c b of Inl e \<Rightarrow> Inl e | Inr page \<Rightarrow> getMcpPage c page)"

text \<open>\<open>#resolveTargetPage\<close>: \<open>this.#requestPage ?? this.getSelectedPage()\<close>.\<close>

definition resolveTargetPage :: "McpContext \<Rightarrow> Browser \<Rightarrow> error + Page" where
  "resolveTargetPage c b =
     (case requestPage c of Some page \<Rightarrow> Inr page | None \<Rightarrow> getSelectedPage c b)"

text \<open>\<open>targetPage ?? this.getSelectedPage()\<close>, the first line of several operations.\<close>

definition targetOrSelected :: "Page option \<Rightarrow> McpContext \<Rightarrow> Browser \<Rightarrow> error + Page" where
  "targetOrSelected targetPage c b =
     (case targetPage of Some p \<Rightarrow> Inr p | None \<Rightarrow> getSelectedPage c b)"

definition getTargetMcpPage :: "McpContext \<Rightarrow> Browser \<Rightarrow> error + McpPage" where
  "getTargetMcpPage c b =
     (case resolveTargetPage c b of Inl e \<Rightarrow> Inl e | Inr page \<Rightarrow> getMcpPage c page)"

definition getCpuThrottlingRate :: "McpContext \<Rightarrow> Browser \<Rightarrow> error + rat" where
  "getCpuThrottlingRate c b =
     (case getTargetMcpPage c b of Inl e \<Rightarrow> Inl e | Inr mp \<Rightarrow> Inr (mcp_cpuThrottlingRate mp))"

definition getNetworkConditions :: "McpContext \<Rightarrow> Browser \<Rightarrow> error + string option" where
  "getNetworkConditions c b =
     (case getTargetMcpPage c b of Inl e \<Rightarrow> Inl e | Inr mp \<Rightarrow> Inr (mcp_networkConditions mp))"

section \<open>Timeouts\<close>

definition DEFAULT_TIMEOUT :: rat where
  "DEFAULT_TIMEOUT = 5000"

definition NAVIGATION_TIMEOUT :: rat where
  "NAVIGATION_TIMEOUT = 10000"

definition getNetworkMultiplierFromString :: "string option \<Rightarrow> rat" where
  "getNetworkMultiplierFromString condition =
     (if condition = Some ''Fast 4G'' then 1
      else if condition = Some ''Slow 4G'' then 5 / 2
      else if condition = Some ''Fast 3G'' then 5
      else if condition = Some ''Slow 3G'' then 10
      else 1)"

definition setDefaultTimeout :: "Page \<Rightarrow> rat \<Rightarrow> Browser \<Rightarrow> Browser" where
  "setDefaultTimeout page t b = b\<lparr>defaultTimeouts := AList.update page t (defaultTimeouts b)\<rparr>"

definition setDefaultNavigationTimeout :: "Page \<Rightarrow> rat \<Rightarrow> Browser \<Rightarrow> Browser" where
  "setDefaultNavigationTimeout page t b =
     b\<lparr>navigationTimeouts := AList.update page t (navigationTimeouts b)\<rparr>"

text \<open>
  \<open>#updateSelectedPageTimeouts\<close>: the timeouts are set on the selected page; the
  multipliers are read through \<open>getCpuThrottlingRate\<close> and \<open>getNetworkConditions\<close>,
  that is from the record of \<open>#resolveTargetPage()\<close>.
\<close>

definition updateSelectedPageTimeouts :: "McpContext \<Rightarrow> Browser \<Rightarrow> (error + unit) \<times> Browser" where
  "updateSelectedPageTimeouts c b =
     (case getSelectedPage c b of
        Inl e \<Rightarrow> (Inl e, b)
      | Inr page \<Rightarrow>
          (case getCpuThrottlingRate c b of
             Inl e \<Rightarrow> (Inl e, b)
           | Inr cpuMultiplier \<Rightarrow>
               (case getNetworkConditions c b of
                  Inl e \<Rightarrow> (Inl e, setDefaultTimeout page (DEFAULT_TIMEOUT * cpuMultiplier) b)
                | Inr nc \<Rightarrow>
                    (Inr (),
                     setDefaultNavigationTimeout page
                       (NAVIGATION_TIMEOUT * getNetworkMultiplierFromString nc)
                       (setDefaultTimeout page (DEFAULT_TIMEOUT * cpuMultiplier) b)))))"

section \<open>Focus discipline\<close>

definition assertPageIsFocused :: "McpContext \<Rightarrow> Page \<Rightarrow> error + unit" where
  "assertPageIsFocused c page =
     (case map_of (focusedPagePerContext c) (browserContext page) of
        None \<Rightarrow> Inr ()
      | Some focused \<Rightarrow>
          if focused \<noteq> page then Inl (NotActivePage (getPageId c page) (getPageId c focused))
          else Inr ())"

text \<open>
  \<open>selectPage\<close>. A throw of \<open>#updateSelectedPageTimeouts\<close> leaves the focus map and
  the selected pointer already written and skips the focus signal of the new page.
\<close>

definition defocusOld :: "McpContext \<Rightarrow> Page \<Rightarrow> Browser \<Rightarrow> Browser" where
  "defocusOld c newPage b =
     (case map_of (focusedPagePerContext c) (browserContext newPage) of
        None \<Rightarrow> b
      | Some oldFocused \<Rightarrow>
          if oldFocused \<noteq> newPage \<and> \<not> isClosed b oldFocused
          then call (EmulateFocusedPage oldFocused False) b else b)"

definition setFocused :: "Page \<Rightarrow> McpContext \<Rightarrow> McpContext" where
  "setFocused newPage c =
     c\<lparr>focusedPagePerContext :=
          AList.update (browserContext newPage) newPage (focusedPagePerContext c),
        selectedPage := Some newPage\<rparr>"

definition selectPage :: "Page \<Rightarrow> McpContext \<times> Browser \<Rightarrow> (error + unit) \<times> McpContext \<times> Browser" where
  "selectPage newPage w =
     (case w of (c, b) \<Rightarrow>
        (case updateSelectedPageTimeouts (setFocused newPage c) (defocusOld c newPage b) of
           (Inl e, b') \<Rightarrow> (Inl e, setFocused newPage c, b')
         | (Inr u, b') \<Rightarrow> (Inr (), setFocused newPage c, call (EmulateFocusedPage newPage True) b')))"

section \<open>Closing a page\<close>

definition disposePage :: "Page \<Rightarrow> McpContext \<times> Browser \<Rightarrow> McpContext \<times> Browser" where
  "disposePage page w =
     (case w of (c, b) \<Rightarrow>
        (case map_of (mcpPages c) page of
           None \<Rightarrow> (c, b)
         | Some mcpPage \<Rightarrow>
             (c\<lparr>mcpPages := AList.delete page (mcpPages c)\<rparr>, call (OffDialog page) b)))"

definition unfocusPage :: "Page \<Rightarrow> McpContext \<Rightarrow> McpContext" where
  "unfocusPage page c =
     (if map_of (focusedPagePerContext c) (browserContext page) = Some page
      then c\<lparr>focusedPagePerContext := AList.delete (browserContext page) (focusedPagePerContext c)\<rparr>
      else c)"

text \<open>\<open>page.close()\<close> on the driver's side.\<close>

definition driverClose :: "Page \<Rightarrow> Browser \<Rightarrow> Browser" where
  "driverClose page b =
     call (ClosePage page)
       (b\<lparr>browserPages := removeAll page (browserPages b),
          closedPages := List.insert page (closedPages b)\<rparr>)"

definition closePage :: "nat \<Rightarrow> McpContext \<times> Browser \<Rightarrow> (error + unit) \<times> McpContext \<times> Browser" where
  "closePage pageId w =
     (case w of (c, b) \<Rightarrow>
        if length (pages c) = 1 then (Inl LastPageError, c, b)
        else
          (case getPageById c pageId of
             Inl e \<Rightarrow> (Inl e, c, b)
           | Inr page \<Rightarrow>
               (case disposePage page (c, b) of
                  (c1, b1) \<Rightarrow> (Inr (), unfocusPage page c1, driverClose page b1))))"

section \<open>Capturing a text snapshot\<close>

record DevToolsData =
  cdpRequestId :: "string option"
  cdpBackendNodeId :: "nat option"

text \<open>
  The search loop of \<open>resolveCdpElementId\<close>. The array \<open>queue\<close> is used as a stack
  (\<open>pop\<close> takes the element pushed last); here the top of the stack is the head of
  the list, so pushing the children in order puts them reversed in front.
\<close>

function searchQueue :: "nat \<Rightarrow> TextSnapshotNode list \<Rightarrow> string option" where
  "searchQueue b [] = None"
| "searchQueue b (current # rest) =
     (if backendNodeId current = Some b then Some (node_id current)
      else searchQueue b (rev (children current) @ rest))"
  by pat_completeness auto

termination searchQueue
proof (relation "measure (\<lambda>(b, q). size_list size q)", goal_cases)
  case 1
  show ?case by simp
next
  case (2 b current rest)
  have r: "size_list size (rev xs) = size_list size xs" for xs :: "TextSnapshotNode list"
    by (induction xs) simp_all
  have "size_list size (children current) < size current"
    by (cases current) simp
  then show ?case by (simp add: r)
qed

fun searchSnapshots :: "nat \<Rightarrow> TextSnapshot list \<Rightarrow> string option" where
  "searchSnapshots b [] = None"
| "searchSnapshots b (snapshot # rest) =
     (case searchQueue b [root snapshot] of
        Some i \<Rightarrow> Some i
      | None \<Rightarrow> searchSnapshots b rest)"

definition resolveCdpElementId :: "McpContext \<Rightarrow> nat \<Rightarrow> Page option \<Rightarrow> string option" where
  "resolveCdpElementId c n page =
     (if n = 0 then None
      else searchSnapshots n
        (case page of
           Some p \<Rightarrow>
             (case map_of (mcpPages c) p of
                None \<Rightarrow> []
              | Some mp \<Rightarrow> (case textSnapshot mp of None \<Rightarrow> [] | Some sn \<Rightarrow> [sn]))
         | None \<Rightarrow> List.map_filter (\<lambda>e. textSnapshot (snd e)) (mcpPages c)))"

definition freshIdState :: "McpPage \<Rightarrow> IdState" where
  "freshIdState mcpPage =
     \<lparr>uniqueIdToMcpId = uniqueBackendNodeIdToMcpId mcpPage, idCounter = 0,
      idToNodeAcc = [], seenUniqueIds = []\<rparr>"

text \<open>
  The record after the traversal: the snapshot is attached and the sticky map holds
  the identifiers minted in this pass (the clean-up comes later).
\<close>

definition attachSnapshot :: "bool \<Rightarrow> nat \<Rightarrow> TextSnapshotNode \<times> IdState \<Rightarrow> McpPage \<Rightarrow> McpPage" where
  "attachSnapshot vb sid res mcpPage =
     mcpPage\<lparr>textSnapshot :=
         Some \<lparr>root = fst res, idToNode = idToNodeAcc (snd res),
               snapshotId = toString_nat sid, selectedElementUid = None,
               hasSelectedElement = False, verbose = vb\<rparr>,
       uniqueBackendNodeIdToMcpId := uniqueIdToMcpId (snd res)\<rparr>"

text \<open>
  \<open>if (data?.cdpBackendNodeId)\<close>: the flag is set and the uid is looked up in the
  snapshot just attached to the page.
\<close>

definition markSelected :: "DevToolsData \<Rightarrow> Page \<Rightarrow> McpContext \<Rightarrow> McpContext" where
  "markSelected data page c =
     (case cdpBackendNodeId data of
        None \<Rightarrow> c
      | Some n \<Rightarrow>
          if n = 0 then c
          else
            (case map_of (mcpPages c) page of
               None \<Rightarrow> c
             | Some mp \<Rightarrow>
                 c\<lparr>mcpPages :=
                     AList.update page
                       (mp\<lparr>textSnapshot :=
                            map_option
                              (\<lambda>sn. sn\<lparr>hasSelectedElement := True,
                                        selectedElementUid := resolveCdpElementId c n (Some page)\<rparr>)
                              (textSnapshot mp)\<rparr>)
                       (mcpPages c)\<rparr>))"

definition cleanUpPage :: "string list \<Rightarrow> Page \<Rightarrow> McpContext \<Rightarrow> McpContext" where
  "cleanUpPage seen page c =
     (case map_of (mcpPages c) page of
        None \<Rightarrow> c
      | Some mp \<Rightarrow>
          c\<lparr>mcpPages :=
              AList.update page
                (mp\<lparr>uniqueBackendNodeIdToMcpId := cleanUp seen (uniqueBackendNodeIdToMcpId mp)\<rparr>)
                (mcpPages c)\<rparr>)"

text \<open>The body of \<open>createTextSnapshot\<close> once the page, its record and a root node are there.\<close>

definition capture :: "bool \<Rightarrow> DevToolsData \<Rightarrow> Page \<Rightarrow> McpPage \<Rightarrow> SerializedAXNode \<Rightarrow> McpContext \<Rightarrow> McpContext" where
  "capture vb data page mcpPage rootNode c =
     (let sid = nextSnapshotId c;
          res = assignIds sid rootNode (freshIdState mcpPage)
      in cleanUpPage (seenUniqueIds (snd res)) page
           (markSelected data page
              (c\<lparr>nextSnapshotId := Suc sid,
                 mcpPages := AList.update page (attachSnapshot vb sid res mcpPage) (mcpPages c)\<rparr>)))"

text \<open>
  \<open>createTextSnapshot(verbose, devtoolsData, targetPage)\<close>. Two answers of the driver
  are arguments: \<open>rootNode\<close>, the result of \<open>page.accessibility.snapshot\<close>, and
  \<open>fetched\<close>, the result of \<open>getDevToolsData()\<close>, read when \<open>devtoolsData\<close> is
  undefined.
\<close>

definition createTextSnapshot ::
  "bool \<Rightarrow> DevToolsData option \<Rightarrow> Page option \<Rightarrow> SerializedAXNode option \<Rightarrow> DevToolsData \<Rightarrow>
   McpContext \<times> Browser \<Rightarrow> (error + unit) \<times> McpContext \<times> Browser" where
  "createTextSnapshot vb devtoolsData targetPage rootNode fetched w =
     (case w of (c, b) \<Rightarrow>
        (case targetOrSelected targetPage c b of
           Inl e \<Rightarrow> (Inl e, c, b)
         | Inr page \<Rightarrow>
             (case getMcpPage c page of
                Inl e \<Rightarrow> (Inl e, c, b)
              | Inr mcpPage \<Rightarrow>
                  (case rootNode of
                     None \<Rightarrow> (Inr (), c, b)
                   | Some rn \<Rightarrow>
                       (Inr (),
                        capture vb (case devtoolsData of Some d \<Rightarrow> d | None \<Rightarrow> fetched)
                          page mcpPage rn c,
                        b)))))"

section \<open>Element lookup\<close>

text \<open>
  \<open>#resolveElementHandle\<close>: \<open>node.elementHandle()\<close> is the driver's answer \<open>eh node\<close>,
  \<open>None\<close> when it returns null or throws; both end in the same error.
\<close>

definition resolveElementHandle :: "(TextSnapshotNode \<Rightarrow> nat option) \<Rightarrow> TextSnapshotNode \<Rightarrow> string \<Rightarrow> error + nat" where
  "resolveElementHandle eh node uid =
     (case eh node of None \<Rightarrow> Inl (ElementGone uid) | Some h \<Rightarrow> Inr h)"

text \<open>The focus check made when the cross-page search finds the uid on \<open>searchPage\<close>.\<close>

definition foundOnPage ::
  "(TextSnapshotNode \<Rightarrow> nat option) \<Rightarrow> string \<Rightarrow> TextSnapshotNode \<Rightarrow> Page \<Rightarrow> McpPage \<Rightarrow>
   McpContext \<Rightarrow> Browser \<Rightarrow> (error + nat) \<times> McpContext" where
  "foundOnPage eh uid node searchPage mcpPage c b =
     (let contextSelectedPage = map_of (focusedPagePerContext c) (browserContext searchPage)
      in if contextSelectedPage \<noteq> Some searchPage then
           (case contextSelectedPage of
              Some f \<Rightarrow> (Inl (UidOnOtherPage uid (mcp_id mcpPage) (getPageId c f)), c)
            | None \<Rightarrow>
                (case getSelectedMcpPage c b of
                   Inl e \<Rightarrow> (Inl e, c)
                 | Inr smp \<Rightarrow> (Inl (UidOnOtherPage uid (mcp_id mcpPage) (Some (mcp_id smp))), c)))
         else (resolveElementHandle eh node uid, c\<lparr>selectedPage := Some searchPage\<rparr>))"

text \<open>The loop over \<open>this.#mcpPages.entries()\<close> with its flag \<open>anySnapshot\<close>.\<close>

fun crossPageSearch ::
  "(TextSnapshotNode \<Rightarrow> nat option) \<Rightarrow> string \<Rightarrow> McpContext \<Rightarrow> Browser \<Rightarrow>
   (Page \<times> McpPage) list \<Rightarrow> bool \<Rightarrow> (error + nat) \<times> McpContext" where
  "crossPageSearch eh uid c b [] anySnapshot =
     (if \<not> anySnapshot then (Inl NoSnapshotFound, c) else (Inl NoSuchElement, c))"
| "crossPageSearch eh uid c b (entry # rest) anySnapshot =
     (case textSnapshot (snd entry) of
        None \<Rightarrow> crossPageSearch eh uid c b rest anySnapshot
      | Some sn \<Rightarrow>
          (case map_of (idToNode sn) uid of
             None \<Rightarrow> crossPageSearch eh uid c b rest True
           | Some node \<Rightarrow> foundOnPage eh uid node (fst entry) (snd entry) c b))"

definition getElementByUid ::
  "(TextSnapshotNode \<Rightarrow> nat option) \<Rightarrow> string \<Rightarrow> Page option \<Rightarrow> McpContext \<times> Browser \<Rightarrow>
   (error + nat) \<times> McpContext \<times> Browser" where
  "getElementByUid eh uid page w =
     (case w of (c, b) \<Rightarrow>
        (case page of
           Some p \<Rightarrow>
             (case map_of (mcpPages c) p of
                None \<Rightarrow> (Inl (NoSnapshotForPage None), c, b)
              | Some mcpPage \<Rightarrow>
                  (case textSnapshot mcpPage of
                     None \<Rightarrow> (Inl (NoSnapshotForPage (Some (mcp_id mcpPage))), c, b)
                   | Some sn \<Rightarrow>
                       (case map_of (idToNode sn) uid of
                          None \<Rightarrow> (Inl (UidNotOnPage uid (mcp_id mcpPage)), c, b)
                        | Some node \<Rightarrow> (resolveElementHandle eh node uid, c, b))))
         | None \<Rightarrow>
             (case crossPageSearch eh uid c b (mcpPages c) False of
                (r, c') \<Rightarrow> (r, c', b))))"

section \<open>Refreshing the page registry\<close>

text \<open>
  \<open>#getAllPages\<close>. \<open>contextToName\<close> is the reverse lookup built from the registry;
  contexts that are neither the default one, nor closed, nor known when the call
  started get a generated name.
\<close>

definition reverseLookup :: "(string \<times> nat) list \<Rightarrow> (nat \<times> string) list" where
  "reverseLookup reg = fold (\<lambda>e m. AList.update (snd e) (fst e) m) reg []"

definition discover ::
  "Browser \<Rightarrow> nat list \<Rightarrow> nat \<Rightarrow> McpContext \<times> (nat \<times> string) list \<Rightarrow> McpContext \<times> (nat \<times> string) list" where
  "discover b knownContexts ctx s =
     (case s of (c, contextToName) \<Rightarrow>
        if ctx \<noteq> defaultBrowserContext b \<and> ctx \<notin> set (closedContexts b) \<and> ctx \<notin> set knownContexts
        then
          (c\<lparr>isolatedContexts :=
               AList.update (''isolated-context-'' @ toString_nat (nextIsolatedContextId c)) ctx
                 (isolatedContexts c),
             nextIsolatedContextId := Suc (nextIsolatedContextId c)\<rparr>,
           AList.update ctx (''isolated-context-'' @ toString_nat (nextIsolatedContextId c))
             contextToName)
        else (c, contextToName))"

definition nameOfPage :: "(nat \<times> string) list \<Rightarrow> Page \<Rightarrow> (Page \<times> string) list \<Rightarrow> (Page \<times> string) list" where
  "nameOfPage contextToName page m =
     (case map_of contextToName (browserContext page) of
        None \<Rightarrow> m
      | Some nm \<Rightarrow> if nm \<noteq> [] then AList.update page nm m else m)"

definition getAllPages :: "McpContext \<Rightarrow> Browser \<Rightarrow> (Page list \<times> (Page \<times> string) list) \<times> McpContext" where
  "getAllPages c b =
     (case fold (discover b (map snd (isolatedContexts c))) (browserContexts b)
             (c, reverseLookup (isolatedContexts c)) of
        (c', contextToName) \<Rightarrow>
          ((browserPages b, fold (nameOfPage contextToName) (browserPages b) []), c'))"

text \<open>The three loops of \<open>createPagesSnapshot\<close>.\<close>

definition registerPage :: "(Page \<times> string) list \<Rightarrow> Page \<Rightarrow> McpContext \<times> Browser \<Rightarrow> McpContext \<times> Browser" where
  "registerPage isolatedContextNames page w =
     (case w of (c, b) \<Rightarrow>
        (case map_of (mcpPages c) page of
           None \<Rightarrow>
             (c\<lparr>mcpPages :=
                  AList.update page
                    ((newMcpPage (nextPageId c))\<lparr>isolatedContextName := map_of isolatedContextNames page\<rparr>)
                    (mcpPages c),
                nextPageId := Suc (nextPageId c)\<rparr>,
              call (OnDialog page) b)
         | Some mcpPage \<Rightarrow>
             (c\<lparr>mcpPages :=
                  AList.update page
                    (mcpPage\<lparr>isolatedContextName := map_of isolatedContextNames page\<rparr>)
                    (mcpPages c)\<rparr>,
              b)))"

definition pruneMcpPage :: "Page list \<Rightarrow> Page \<Rightarrow> McpContext \<times> Browser \<Rightarrow> McpContext \<times> Browser" where
  "pruneMcpPage allPages page w =
     (if page \<in> set allPages then w
      else (case w of (c, b) \<Rightarrow>
              (c\<lparr>mcpPages := AList.delete page (mcpPages c)\<rparr>, call (OffDialog page) b)))"

definition pruneFocus :: "Page list \<Rightarrow> nat \<times> Page \<Rightarrow> McpContext \<Rightarrow> McpContext" where
  "pruneFocus allPages entry c =
     (if snd entry \<in> set allPages then c
      else c\<lparr>focusedPagePerContext := AList.delete (fst entry) (focusedPagePerContext c)\<rparr>)"

definition visiblePages :: "McpContext \<Rightarrow> Browser \<Rightarrow> Page list \<Rightarrow> Page list" where
  "visiblePages c b allPages =
     filter (\<lambda>page. experimentalDevToolsDebugging c \<or> \<not> startsWith (url b page) ''devtools://'')
       allPages"

text \<open>
  \<open>createPagesSnapshot\<close>. The closing call \<open>detectOpenDevToolsWindows\<close> writes only
  the paired DevTools window of each record, which is not modelled; its own call
  of \<open>#getAllPages\<close> finds every context already named and changes nothing.
\<close>

definition refreshRecords :: "McpContext \<Rightarrow> Browser \<Rightarrow> McpContext \<times> Browser" where
  "refreshRecords c b =
     (case getAllPages c b of
        ((allPages, isolatedContextNames), c0) \<Rightarrow>
          (case fold (registerPage isolatedContextNames) allPages (c0, b) of
             (c1, b1) \<Rightarrow>
               (case fold (pruneMcpPage allPages) (map fst (mcpPages c1)) (c1, b1) of
                  (c2, b2) \<Rightarrow>
                    ((fold (pruneFocus allPages) (focusedPagePerContext c2) c2)
                       \<lparr>pages := visiblePages c2 b2 allPages\<rparr>,
                     b2))))"

definition needsReselect :: "McpContext \<Rightarrow> bool" where
  "needsReselect c =
     ((case selectedPage c of None \<Rightarrow> True | Some sp \<Rightarrow> sp \<notin> set (pages c)) \<and> pages c \<noteq> [])"

definition createPagesSnapshot :: "McpContext \<times> Browser \<Rightarrow> (error + Page list) \<times> McpContext \<times> Browser" where
  "createPagesSnapshot w =
     (case w of (c, b) \<Rightarrow>
        (case refreshRecords c b of
           (c3, b3) \<Rightarrow>
             if needsReselect c3 then
               (case selectPage (hd (pages c3)) (c3, b3) of
                  (Inl e, c4, b4) \<Rightarrow> (Inl e, c4, b4)
                | (Inr u, c4, b4) \<Rightarrow> (Inr (pages c4), c4, b4))
             else (Inr (pages c3), c3, b3)))"

section \<open>Creating a page\<close>

text \<open>
  The driver's \<open>browser.newPage\<close>, \<open>ctx.newPage\<close> and \<open>browser.createBrowserContext\<close>:
  a fresh handle in the given context, listed last by \<open>browser.pages()\<close>.
\<close>

definition driverNewPage :: "nat \<Rightarrow> bool option \<Rightarrow> Browser \<Rightarrow> Page \<times> Browser" where
  "driverNewPage ctx background b =
     (Page (nextHandle b) ctx,
      call (NewPage (Page (nextHandle b) ctx) background)
        (b\<lparr>browserPages := browserPages b @ [Page (nextHandle b) ctx],
           pageUrls := AList.update (Page (nextHandle b) ctx) ''about:blank'' (pageUrls b),
           nextHandle := Suc (nextHandle b)\<rparr>))"

definition driverCreateBrowserContext :: "Browser \<Rightarrow> nat \<times> Browser" where
  "driverCreateBrowserContext b =
     (nextContext b,
      call (CreateBrowserContext (nextContext b))
        (b\<lparr>browserContexts := browserContexts b @ [nextContext b],
           nextContext := Suc (nextContext b)\<rparr>))"

definition openPage :: "bool option \<Rightarrow> string option \<Rightarrow> McpContext \<times> Browser \<Rightarrow> Page \<times> McpContext \<times> Browser" where
  "openPage background contextName w =
     (case w of (c, b) \<Rightarrow>
        (case contextName of
           Some nm \<Rightarrow>
             (case map_of (isolatedContexts c) nm of
                Some ctx \<Rightarrow> (case driverNewPage ctx None b of (page, b') \<Rightarrow> (page, c, b'))
              | None \<Rightarrow>
                  (case driverCreateBrowserContext b of
                     (ctx, b1) \<Rightarrow>
                       (case driverNewPage ctx None b1 of
                          (page, b') \<Rightarrow>
                            (page, c\<lparr>isolatedContexts := AList.update nm ctx (isolatedContexts c)\<rparr>, b'))))
         | None \<Rightarrow>
             (case driverNewPage (defaultBrowserContext b) background b of
                (page, b') \<Rightarrow> (page, c, b'))))"

text \<open>
  \<open>newPage(background, isolatedContextName)\<close>; the two collectors that the new
  page is added to are outside the model.
\<close>

definition newPage :: "bool option \<Rightarrow> string option \<Rightarrow> McpContext \<times> Browser \<Rightarrow> (error + Page) \<times> McpContext \<times> Browser" where
  "newPage background contextName w =
     (case openPage background contextName w of
        (page, w1) \<Rightarrow>
          (case createPagesSnapshot w1 of
             (Inl e, w2) \<Rightarrow> (Inl e, w2)
           | (Inr ps, w2) \<Rightarrow>
               (case selectPage page w2 of
                  (Inl e, w3) \<Rightarrow> (Inl e, w3)
                | (Inr u, w3) \<Rightarrow> (Inr page, w3))))"

text \<open>The state right after the constructor, and \<open>McpContext.from\<close>, which refreshes the registry.\<close>

definition emptyContext :: "bool \<Rightarrow> McpContext" where
  "emptyContext devToolsDebugging =
     \<lparr>isolatedContexts = [], nextIsolatedContextId = 1, pages = [], mcpPages = [],
      selectedPage = None, focusedPagePerContext = [], requestPage = None,
      nextPageId = 1, nextSnapshotId = 1, experimentalDevToolsDebugging = devToolsDebugging\<rparr>"

definition fromBrowser :: "bool \<Rightarrow> Browser \<Rightarrow> (error + Page list) \<times> McpContext \<times> Browser" where
  "fromBrowser devToolsDebugging b = createPagesSnapshot (emptyContext devToolsDebugging, b)"

section \<open>Emulation\<close>

text \<open>
  A field of the options of \<open>emulate\<close> is absent (\<open>Undefined\<close>), an explicit
  \<open>null\<close>, or a value.
\<close>

datatype 'a upd = Undefined | Null | Value 'a

record EmulateOptions =
  opt_networkConditions :: "string upd"
  opt_cpuThrottlingRate :: "rat upd"
  opt_geolocation :: "(rat \<times> rat) upd"
  opt_userAgent :: "string upd"
  opt_colorScheme :: "string upd"
  opt_viewport :: "Viewport upd"

text \<open>
  The six blocks of \<open>emulate\<close>, each on the copy \<open>newSettings\<close> and the driver.
  \<open>predefined\<close> is the test \<open>options.networkConditions in PredefinedNetworkConditions\<close>
  against the driver library's table.
\<close>

definition emulateNetwork :: "(string \<Rightarrow> bool) \<Rightarrow> Page \<Rightarrow> string upd \<Rightarrow> EmulationSettings \<times> Browser \<Rightarrow> EmulationSettings \<times> Browser" where
  "emulateNetwork predefined page opt s =
     (case s of (newSettings, b) \<Rightarrow>
        (case opt of
           Undefined \<Rightarrow> (newSettings, b)
         | Null \<Rightarrow>
             (newSettings\<lparr>networkConditions := None\<rparr>, call (EmulateNetworkConditions page None) b)
         | Value v \<Rightarrow>
             if v = ''No emulation'' then
               (newSettings\<lparr>networkConditions := None\<rparr>, call (EmulateNetworkConditions page None) b)
             else if v = ''Offline'' then
               (newSettings\<lparr>networkConditions := Some ''Offline''\<rparr>,
                call (EmulateNetworkConditions page (Some ''Offline'')) b)
             else if predefined v then
               (newSettings\<lparr>networkConditions := Some v\<rparr>,
                call (EmulateNetworkConditions page (Some v)) b)
             else (newSettings, b)))"

definition emulateCpu :: "Page \<Rightarrow> rat upd \<Rightarrow> EmulationSettings \<times> Browser \<Rightarrow> EmulationSettings \<times> Browser" where
  "emulateCpu page opt s =
     (case s of (newSettings, b) \<Rightarrow>
        (case opt of
           Undefined \<Rightarrow> (newSettings, b)
         | Null \<Rightarrow> (newSettings\<lparr>cpuThrottlingRate := None\<rparr>, call (EmulateCPUThrottling page 1) b)
         | Value r \<Rightarrow> (newSettings\<lparr>cpuThrottlingRate := Some r\<rparr>, call (EmulateCPUThrottling page r) b)))"

definition emulateGeolocation :: "Page \<Rightarrow> (rat \<times> rat) upd \<Rightarrow> EmulationSettings \<times> Browser \<Rightarrow> EmulationSettings \<times> Browser" where
  "emulateGeolocation page opt s =
     (case s of (newSettings, b) \<Rightarrow>
        (case opt of
           Undefined \<Rightarrow> (newSettings, b)
         | Null \<Rightarrow> (newSettings\<lparr>geolocation := None\<rparr>, call (SetGeolocation page 0 0) b)
         | Value g \<Rightarrow>
             (newSettings\<lparr>geolocation := Some g\<rparr>, call (SetGeolocation page (fst g) (snd g)) b)))"

definition emulateUserAgent :: "Page \<Rightarrow> string upd \<Rightarrow> EmulationSettings \<times> Browser \<Rightarrow> EmulationSettings \<times> Browser" where
  "emulateUserAgent page opt s =
     (case s of (newSettings, b) \<Rightarrow>
        (case opt of
           Undefined \<Rightarrow> (newSettings, b)
         | Null \<Rightarrow> (newSettings\<lparr>userAgent := None\<rparr>, call (SetUserAgent page None) b)
         | Value ua \<Rightarrow> (newSettings\<lparr>userAgent := Some ua\<rparr>, call (SetUserAgent page (Some ua)) b)))"

definition emulateColorScheme :: "Page \<Rightarrow> string upd \<Rightarrow> EmulationSettings \<times> Browser \<Rightarrow> EmulationSettings \<times> Browser" where
  "emulateColorScheme page opt s =
     (case s of (newSettings, b) \<Rightarrow>
        (case opt of
           Undefined \<Rightarrow> (newSettings, b)
         | Null \<Rightarrow> (newSettings\<lparr>colorScheme := None\<rparr>, call (EmulateMediaFeatures page []) b)
         | Value cs \<Rightarrow>
             if cs = ''auto'' then
               (newSettings\<lparr>colorScheme := None\<rparr>, call (EmulateMediaFeatures page []) b)
             else (newSettings\<lparr>colorScheme := Some cs\<rparr>, call (EmulateMediaFeatures page cs) b)))"

definition withDefaults :: "Viewport \<Rightarrow> Viewport" where
  "withDefaults v =
     v\<lparr>deviceScaleFactor := Some (case deviceScaleFactor v of None \<Rightarrow> 1 | Some f \<Rightarrow> f),
       isMobile := Some (case isMobile v of None \<Rightarrow> False | Some x \<Rightarrow> x),
       hasTouch := Some (case hasTouch v of None \<Rightarrow> False | Some x \<Rightarrow> x),
       isLandscape := Some (case isLandscape v of None \<Rightarrow> False | Some x \<Rightarrow> x)\<rparr>"

definition emulateViewport :: "Page \<Rightarrow> Viewport upd \<Rightarrow> EmulationSettings \<times> Browser \<Rightarrow> EmulationSettings \<times> Browser" where
  "emulateViewport page opt s =
     (case s of (newSettings, b) \<Rightarrow>
        (case opt of
           Undefined \<Rightarrow> (newSettings, b)
         | Null \<Rightarrow> (newSettings\<lparr>viewport := None\<rparr>, call (SetViewport page None) b)
         | Value v \<Rightarrow>
             (newSettings\<lparr>viewport := Some (withDefaults v)\<rparr>,
              call (SetViewport page (Some (withDefaults v))) b)))"

definition applyEmulation :: "(string \<Rightarrow> bool) \<Rightarrow> Page \<Rightarrow> EmulateOptions \<Rightarrow> EmulationSettings \<times> Browser \<Rightarrow> EmulationSettings \<times> Browser" where
  "applyEmulation predefined page opts s =
     emulateViewport page (opt_viewport opts)
       (emulateColorScheme page (opt_colorScheme opts)
          (emulateUserAgent page (opt_userAgent opts)
             (emulateGeolocation page (opt_geolocation opts)
                (emulateCpu page (opt_cpuThrottlingRate opts)
                   (emulateNetwork predefined page (opt_networkConditions opts) s)))))"

definition timeoutsNeedUpdate :: "EmulateOptions \<Rightarrow> bool" where
  "timeoutsNeedUpdate opts =
     (opt_networkConditions opts \<noteq> Undefined \<or> opt_cpuThrottlingRate opts \<noteq> Undefined)"

definition storeSettings :: "Page \<Rightarrow> McpPage \<Rightarrow> EmulationSettings \<Rightarrow> McpContext \<Rightarrow> McpContext" where
  "storeSettings page mcpPage newSettings c =
     c\<lparr>mcpPages := AList.update page (mcpPage\<lparr>emulationSettings := newSettings\<rparr>) (mcpPages c)\<rparr>"

definition emulate :: "(string \<Rightarrow> bool) \<Rightarrow> EmulateOptions \<Rightarrow> Page option \<Rightarrow> McpContext \<times> Browser \<Rightarrow> (error + unit) \<times> McpContext \<times> Browser" where
  "emulate predefined opts targetPage w =
     (case w of (c, b) \<Rightarrow>
        (case targetOrSelected targetPage c b of
           Inl e \<Rightarrow> (Inl e, c, b)
         | Inr page \<Rightarrow>
             (case getMcpPage c page of
                Inl e \<Rightarrow> (Inl e, c, b)
              | Inr mcpPage \<Rightarrow>
                  (case applyEmulation predefined page opts (emulationSettings mcpPage, b) of
                     (newSettings, b1) \<Rightarrow>
                       if timeoutsNeedUpdate opts then
                         (case updateSelectedPageTimeouts (storeSettings page mcpPage newSettings c) b1 of
                            (r, b2) \<Rightarrow> (r, storeSettings page mcpPage newSettings c, b2))
                       else (Inr (), storeSettings page mcpPage newSettings c, b1)))))"



text \<open>
  \<open>getAXNodeByUid\<close>: the first page, in the order of \<open>#mcpPages\<close>, whose snapshot
  indexes the uid. \<open>hasUid\<close> is the test \<open>mcpPage.textSnapshot?.idToNode.get(uid)\<close>
  that this scan and the cross-page search of \<open>getElementByUid\<close> make on a record.
\<close>

definition nodeByUid :: "string \<Rightarrow> McpPage \<Rightarrow> TextSnapshotNode option" where
  "nodeByUid uid mcpPage =
     (case textSnapshot mcpPage of None \<Rightarrow> None | Some sn \<Rightarrow> map_of (idToNode sn) uid)"

definition hasUid :: "string \<Rightarrow> McpPage \<Rightarrow> bool" where
  "hasUid uid mcpPage = (nodeByUid uid mcpPage \<noteq> None)"

fun firstNode :: "string \<Rightarrow> (Page \<times> McpPage) list \<Rightarrow> TextSnapshotNode option" where
  "firstNode uid [] = None"
| "firstNode uid (entry # rest) =
     (case nodeByUid uid (snd entry) of
        Some node \<Rightarrow> Some node
      | None \<Rightarrow> firstNode uid rest)"

definition getAXNodeByUid :: "McpContext \<Rightarrow> string \<Rightarrow> TextSnapshotNode option" where
  "getAXNodeByUid c uid = firstNode uid (mcpPages c)"

section \<open>Trees as node lists\<close>

text \<open>
  Every node of a captured tree and of a snapshot, parent before children, and the
  backend key of a node (a snapshot node keeps \<open>loaderId\<close> and \<open>backendNodeId\<close>).
\<close>

fun axNodes :: "SerializedAXNode \<Rightarrow> SerializedAXNode list" where
  "axNodes (AXNode l b r n v cs) = AXNode l b r n v cs # concat (map axNodes cs)"

fun snapNodes :: "TextSnapshotNode \<Rightarrow> TextSnapshotNode list" where
  "snapNodes (SnapNode i l b r n v cs) = SnapNode i l b r n v cs # concat (map snapNodes cs)"

definition axKey :: "SerializedAXNode \<Rightarrow> string" where
  "axKey n = uniqueBackendId (ax_loaderId n) (ax_backendNodeId n)"

definition snapKey :: "TextSnapshotNode \<Rightarrow> string" where
  "snapKey n = uniqueBackendId (loaderId n) (backendNodeId n)"

section \<open>A session\<close>

text \<open>
  A browser with one blank page in the default context; the session manager is
  created on it (\<open>w1\<close>), a second page is opened (\<open>w2\<close>), the first page is
  captured (\<open>w3\<close>) and the second page is closed (\<open>w4\<close>).
\<close>

definition browser0 :: Browser where
  "browser0 =
     \<lparr>browserPages = [Page 0 0], closedPages = [], pageUrls = [(Page 0 0, ''about:blank'')],
      defaultBrowserContext = 0, browserContexts = [0], closedContexts = [],
      defaultTimeouts = [], navigationTimeouts = [], calls = [],
      nextHandle = 1, nextContext = 1\<rparr>"

definition tree0 :: SerializedAXNode where
  "tree0 =
     AXNode (Some ''L'') (Some 1) ''RootWebArea'' (Some ''t'') None
       [AXNode (Some ''L'') (Some 2) ''button'' (Some ''Go'') None [],
        AXNode (Some ''L'') (Some 3) ''option'' (Some ''A'') (Some (StrValue ''b'')) []]"

definition tree1 :: SerializedAXNode where
  "tree1 =
     AXNode (Some ''L'') (Some 1) ''RootWebArea'' (Some ''t'') None
       [AXNode (Some ''L'') (Some 4) ''link'' (Some ''New'') None [],
        AXNode (Some ''L'') (Some 2) ''button'' (Some ''Go'') None []]"

definition noData :: DevToolsData where
  "noData = \<lparr>cdpRequestId = None, cdpBackendNodeId = None\<rparr>"

definition w1 :: "McpContext \<times> Browser" where
  "w1 = snd (fromBrowser False browser0)"

definition w2 :: "McpContext \<times> Browser" where
  "w2 = snd (newPage None None w1)"

definition w3 :: "McpContext \<times> Browser" where
  "w3 = snd (createTextSnapshot False (Some noData) (Some (Page 0 0)) (Some tree0) noData w2)"

definition w4 :: "McpContext \<times> Browser" where
  "w4 = snd (closePage 2 w3)"



section \<open>Well-formed sticky maps\<close>

text \<open>
  What the snapshot indexer keeps true of a page's sticky map: every identifier in
  it was minted by a capture with a smaller snapshot id than the next one, and no
  two keys share an identifier. \<open>passOk\<close> is the same during a traversal, where
  identifiers of the running capture with smaller ordinals are there too.
\<close>

definition stickyOk :: "nat \<Rightarrow> (string \<times> string) list \<Rightarrow> bool" where
  "stickyOk n m =
     ((\<forall>k i. map_of m k = Some i \<longrightarrow> (\<exists>s c. s < n \<and> i = mintId s c)) \<and>
      (\<forall>k k' i. map_of m k = Some i \<and> map_of m k' = Some i \<longrightarrow> k = k'))"

definition stickyInv :: "McpContext \<Rightarrow> bool" where
  "stickyInv c =
     (\<forall>page mp. map_of (mcpPages c) page = Some mp \<longrightarrow>
        stickyOk (nextSnapshotId c) (uniqueBackendNodeIdToMcpId mp))"

definition passOk :: "nat \<Rightarrow> IdState \<Rightarrow> bool" where
  "passOk sid st =
     ((\<forall>k i. map_of (uniqueIdToMcpId st) k = Some i \<longrightarrow>
         (\<exists>s c. i = mintId s c \<and> (s < sid \<or> (s = sid \<and> c < idCounter st)))) \<and>
      (\<forall>k k' i. map_of (uniqueIdToMcpId st) k = Some i \<and> map_of (uniqueIdToMcpId st) k' = Some i
         \<longrightarrow> k = k'))"

text \<open>The record and the snapshot of a page, for reading a concrete session.\<close>

definition recordOf :: "McpContext \<Rightarrow> Page \<Rightarrow> McpPage" where
  "recordOf c page = (case map_of (mcpPages c) page of Some mp \<Rightarrow> mp | None \<Rightarrow> newMcpPage 0)"

definition snapshotOf :: "McpContext \<Rightarrow> Page \<Rightarrow> TextSnapshot" where
  "snapshotOf c page =
     (case textSnapshot (recordOf c page) of
        Some sn \<Rightarrow> sn
      | None \<Rightarrow>
          \<lparr>root = SnapNode [] None None [] None None [], idToNode = [], snapshotId = [],
           selectedElementUid = None, hasSelectedElement = False, verbose = False\<rparr>)"

text \<open>A driver that resolves every node to the element handle 7.\<close>

definition handle7 :: "TextSnapshotNode \<Rightarrow> nat option" where
  "handle7 n = Some 7"

text \<open>The first page of the session is captured again, with one node gone and one new.\<close>

definition w5 :: "McpContext \<times> Browser" where
  "w5 = snd (createTextSnapshot False (Some noData) (Some (Page 0 0)) (Some tree1) noData w3)"

text \<open>The first page is selected again after its capture.\<close>

definition w6 :: "McpContext \<times> Browser" where
  "w6 = snd (selectPage (Page 0 0) w3)"

section \<open>Reachable states\<close>



definition stickyLe :: "McpContext \<Rightarrow> McpContext \<Rightarrow> bool" where
  "stickyLe c c' =
     (nextSnapshotId c \<le> nextSnapshotId c' \<and>
      (\<forall>q mp. map_of (mcpPages c') q = Some mp \<longrightarrow>
         uniqueBackendNodeIdToMcpId mp = [] \<or>
         (\<exists>mp0. map_of (mcpPages c) q = Some mp0 \<and>
                uniqueBackendNodeIdToMcpId mp = uniqueBackendNodeIdToMcpId mp0)))"

text \<open>
  The states a session can be in: it is created on a browser, and then the
  operations are called with any arguments, while the driver's side may change in
  any way between two calls.
\<close>

inductive reachable :: "McpContext \<times> Browser \<Rightarrow> bool" where
  created: "reachable (snd (fromBrowser devToolsDebugging b))"
| driver: "reachable (c, b) \<Longrightarrow> reachable (c, b')"
| setRequestPage: "reachable (c, b) \<Longrightarrow> reachable (c\<lparr>requestPage := p\<rparr>, b)"
| refreshed: "reachable w \<Longrightarrow> reachable (snd (createPagesSnapshot w))"
| opened: "reachable w \<Longrightarrow> reachable (snd (newPage background contextName w))"
| closed: "reachable w \<Longrightarrow> reachable (snd (closePage pageId w))"
| selected: "reachable w \<Longrightarrow> reachable (snd (selectPage page w))"
| captured: "reachable w \<Longrightarrow> reachable (snd (createTextSnapshot vb dd tp rn fetched w))"
| emulated: "reachable w \<Longrightarrow> reachable (snd (emulate predefined opts tp w))"
| looked_up: "reachable w \<Longrightarrow> reachable (snd (getElementByUid eh uid tp w))"

section \<open>Decimal rendering is injective\<close>

lemma digit_char_inj: "a < 10 \<Longrightarrow> b < 10 \<Longrightarrow> digit_char a = digit_char b \<Longrightarrow> a = b"
proof -
  assume a: "a < 10" and b: "b < 10" and e: "digit_char a = digit_char b"
  from e have "(of_char (char_of (48 + a)) :: nat) = of_char (char_of (48 + b))"
    by (simp add: digit_char_def)
  with a b show "a = b" by simp
qed

lemma digit_char_not_underscore: "d < 10 \<Longrightarrow> digit_char d \<noteq> CHR ''_''"
proof
  assume d: "d < 10" and e: "digit_char d = CHR ''_''"
  from e have "(of_char (char_of (48 + d)) :: nat) = of_char (CHR ''_'')"
    by (simp add: digit_char_def)
  with d show False by simp
qed

lemma toString_nat_nonempty: "toString_nat n \<noteq> []"
  by (subst toString_nat.simps) simp

lemma toString_nat_no_underscore: "CHR ''_'' \<notin> set (toString_nat n)"
proof (induction n rule: toString_nat.induct)
  case (1 n)
  show ?case
  proof (cases "n < 10")
    case True
    then show ?thesis
      using digit_char_not_underscore [of n] by (subst toString_nat.simps) auto
  next
    case False
    then show ?thesis
      using 1 digit_char_not_underscore [of "n mod 10"]
      by (subst toString_nat.simps) auto
  qed
qed

lemma toString_nat_inj: "toString_nat m = toString_nat n \<Longrightarrow> m = n"
proof (induction m arbitrary: n rule: toString_nat.induct)
  case (1 m)
  show ?case
  proof (cases "m < 10")
    case m: True
    show ?thesis
    proof (cases "n < 10")
      case True
      with m 1(2) show ?thesis
        by (simp add: toString_nat.simps [of m] toString_nat.simps [of n] digit_char_inj)
    next
      case False
      with m 1(2) toString_nat_nonempty [of "n div 10"] show ?thesis
        by (simp add: toString_nat.simps [of m] toString_nat.simps [of n])
    qed
  next
    case m: False
    show ?thesis
    proof (cases "n < 10")
      case True
      with m 1(2) toString_nat_nonempty [of "m div 10"] show ?thesis
        by (simp add: toString_nat.simps [of m] toString_nat.simps [of n])
    next
      case False
      with m 1(2) have e: "toString_nat (m div 10) = toString_nat (n div 10)"
        and d: "digit_char (m mod 10) = digit_char (n mod 10)"
        by (simp_all add: toString_nat.simps [of m] toString_nat.simps [of n])
      from 1(1) [OF m e] have q: "m div 10 = n div 10" .
      from d have r: "m mod 10 = n mod 10" by (simp add: digit_char_inj)
      from q r show ?thesis by (metis div_mult_mod_eq)
    qed
  qed
qed

lemma mintId_inj: "mintId s c = mintId s' c' \<Longrightarrow> s = s' \<and> c = c'"
proof -
  assume "mintId s c = mintId s' c'"
  then have "toString_nat s @ CHR ''_'' # toString_nat c = toString_nat s' @ CHR ''_'' # toString_nat c'"
    by (simp add: mintId_def)
  then have "toString_nat s = toString_nat s' \<and> toString_nat c = toString_nat c'"
    using toString_nat_no_underscore by (simp add: append_Cons_eq_iff)
  then show ?thesis by (simp add: toString_nat_inj)
qed

section \<open>The traversal\<close>

lemma cleanUp_fold:
  "map_of (fold (\<lambda>key acc. if key \<in> set seen then acc else AList.delete key acc) ks m) k =
     (if k \<in> set ks \<and> k \<notin> set seen then None else map_of m k)"
  by (induction ks arbitrary: m) (auto simp: AList.delete_conv')

lemma map_of_cleanUp:
  "map_of (cleanUp seen m) k = (if k \<in> set seen then map_of m k else None)"
proof (cases "k \<in> set (map fst m)")
  case True
  then show ?thesis by (simp add: cleanUp_def cleanUp_fold)
next
  case False
  then have "map_of m k = None" by (simp add: map_of_eq_None_iff)
  then show ?thesis by (simp add: cleanUp_def cleanUp_fold)
qed

lemma assignId_keeps:
  "map_of (uniqueIdToMcpId st) k = Some i \<Longrightarrow>
   map_of (uniqueIdToMcpId (snd (assignId sid key st))) k = Some i"
  by (auto simp: assignId_def AList.update_conv' split: option.splits)

lemma assignId_maps:
  "map_of (uniqueIdToMcpId (snd (assignId sid key st))) key = Some (fst (assignId sid key st))"
  by (auto simp: assignId_def AList.update_conv' split: option.splits)

lemma assignId_seen:
  "set (seenUniqueIds (snd (assignId sid key st))) = insert key (set (seenUniqueIds st))"
  by (auto simp: assignId_def split: option.splits)

lemma assignId_index:
  "idToNodeAcc (snd (assignId sid key st)) = idToNodeAcc st"
  by (auto simp: assignId_def split: option.splits)

lemma assignId_passOk:
  assumes "passOk sid st"
  shows "passOk sid (snd (assignId sid key st))"
proof (cases "map_of (uniqueIdToMcpId st) key")
  case (Some i)
  then show ?thesis using assms by (simp add: assignId_def passOk_def)
next
  case None
  have fresh: "map_of (uniqueIdToMcpId st) k \<noteq> Some (mintId sid (idCounter st))" for k
  proof
    assume "map_of (uniqueIdToMcpId st) k = Some (mintId sid (idCounter st))"
    with assms obtain s c where "mintId sid (idCounter st) = mintId s c"
      and "s < sid \<or> (s = sid \<and> c < idCounter st)"
      unfolding passOk_def by blast
    then show False using mintId_inj [of sid "idCounter st" s c] by auto
  qed
  show ?thesis
    unfolding passOk_def
  proof (intro conjI allI impI)
    fix k i
    assume "map_of (uniqueIdToMcpId (snd (assignId sid key st))) k = Some i"
    with None have "(k = key \<and> i = mintId sid (idCounter st)) \<or> map_of (uniqueIdToMcpId st) k = Some i"
      by (auto simp: assignId_def AList.update_conv' split: if_splits)
    then show "\<exists>s c. i = mintId s c \<and>
        (s < sid \<or> s = sid \<and> c < idCounter (snd (assignId sid key st)))"
    proof
      assume "k = key \<and> i = mintId sid (idCounter st)"
      with None show ?thesis by (auto simp: assignId_def)
    next
      assume "map_of (uniqueIdToMcpId st) k = Some i"
      with assms obtain s c where sc: "i = mintId s c" "s < sid \<or> (s = sid \<and> c < idCounter st)"
        unfolding passOk_def by blast
      have "idCounter (snd (assignId sid key st)) = Suc (idCounter st)"
        using None by (simp add: assignId_def)
      with sc show ?thesis by (intro exI [of _ s] exI [of _ c]) auto
    qed
  next
    fix k k' i
    assume "map_of (uniqueIdToMcpId (snd (assignId sid key st))) k = Some i \<and>
            map_of (uniqueIdToMcpId (snd (assignId sid key st))) k' = Some i"
    with None assms fresh show "k = k'"
      unfolding passOk_def
      by (auto simp: assignId_def AList.update_conv' split: if_splits)
  qed
qed

lemma assignIds_unfold:
  "assignIds sid (AXNode l b r n v cs) st =
     (SnapNode (fst (assignId sid (uniqueBackendId l b) st)) l b r n (optionValue r n v)
        (fst (assignIdsList sid cs (snd (assignId sid (uniqueBackendId l b) st)))),
      (snd (assignIdsList sid cs (snd (assignId sid (uniqueBackendId l b) st))))
        \<lparr>idToNodeAcc :=
           AList.update (fst (assignId sid (uniqueBackendId l b) st))
             (SnapNode (fst (assignId sid (uniqueBackendId l b) st)) l b r n (optionValue r n v)
                (fst (assignIdsList sid cs (snd (assignId sid (uniqueBackendId l b) st)))))
             (idToNodeAcc (snd (assignIdsList sid cs (snd (assignId sid (uniqueBackendId l b) st)))))\<rparr>)"
  by (simp split: prod.splits)

lemma assignIdsList_unfold:
  "assignIdsList sid (c # cs) st =
     (fst (assignIds sid c st) # fst (assignIdsList sid cs (snd (assignIds sid c st))),
      snd (assignIdsList sid cs (snd (assignIds sid c st))))"
  by (simp split: prod.splits)

lemma assignIds_keeps:
  "map_of (uniqueIdToMcpId st) k = Some i \<Longrightarrow>
     map_of (uniqueIdToMcpId (snd (assignIds sid t st))) k = Some i"
  "map_of (uniqueIdToMcpId st) k = Some i \<Longrightarrow>
     map_of (uniqueIdToMcpId (snd (assignIdsList sid ts st))) k = Some i"
proof (induction sid t st and sid ts st rule: assignIds_assignIdsList.induct)
  case (1 sid l b r n v cs st)
  from 1(2) have "map_of (uniqueIdToMcpId (snd (assignId sid (uniqueBackendId l b) st))) k = Some i"
    by (rule assignId_keeps)
  from 1(1) [OF prod.collapse this] show ?case
    by (simp add: assignIds_unfold del: assignIds.simps)
next
  case (2 sid st)
  then show ?case by simp
next
  case (3 sid c cs st)
  from 3(1) [OF 3(3)] have "map_of (uniqueIdToMcpId (snd (assignIds sid c st))) k = Some i" .
  from 3(2) [OF prod.collapse this] show ?case
    by (simp add: assignIdsList_unfold del: assignIdsList.simps)
qed

lemma assignIds_keys:
  "map snapKey (snapNodes (fst (assignIds sid t st))) = map axKey (axNodes t)"
  "map snapKey (concat (map snapNodes (fst (assignIdsList sid ts st)))) =
     map axKey (concat (map axNodes ts))"
proof (induction sid t st and sid ts st rule: assignIds_assignIdsList.induct)
  case (1 sid l b r n v cs st)
  from 1 [OF prod.collapse] show ?case
    by (simp add: assignIds_unfold snapKey_def axKey_def del: assignIds.simps)
next
  case (2 sid st)
  show ?case by simp
next
  case (3 sid c cs st)
  from 3(1) 3(2) [OF prod.collapse] show ?case
    by (simp add: assignIdsList_unfold del: assignIdsList.simps)
qed

lemma assignIds_seen:
  "set (seenUniqueIds (snd (assignIds sid t st))) =
     set (seenUniqueIds st) \<union> axKey ` set (axNodes t)"
  "set (seenUniqueIds (snd (assignIdsList sid ts st))) =
     set (seenUniqueIds st) \<union> axKey ` set (concat (map axNodes ts))"
proof (induction sid t st and sid ts st rule: assignIds_assignIdsList.induct)
  case (1 sid l b r n v cs st)
  from 1 [OF prod.collapse] show ?case
    by (simp add: assignIds_unfold assignId_seen axKey_def del: assignIds.simps)
next
  case (2 sid st)
  show ?case by simp
next
  case (3 sid c cs st)
  from 3(1) 3(2) [OF prod.collapse] show ?case
    by (auto simp add: assignIdsList_unfold simp del: assignIdsList.simps)
qed

lemma assignIds_index:
  "fst ` set (idToNodeAcc (snd (assignIds sid t st))) =
     fst ` set (idToNodeAcc st) \<union> node_id ` set (snapNodes (fst (assignIds sid t st)))"
  "fst ` set (idToNodeAcc (snd (assignIdsList sid ts st))) =
     fst ` set (idToNodeAcc st) \<union>
     node_id ` set (concat (map snapNodes (fst (assignIdsList sid ts st))))"
proof (induction sid t st and sid ts st rule: assignIds_assignIdsList.induct)
  case (1 sid l b r n v cs st)
  from 1 [OF prod.collapse] show ?case
    by (simp add: assignIds_unfold assignId_index AList.dom_update del: assignIds.simps)
next
  case (2 sid st)
  show ?case by simp
next
  case (3 sid c cs st)
  from 3(1) 3(2) [OF prod.collapse] show ?case
    by (auto simp add: assignIdsList_unfold simp del: assignIdsList.simps)
qed

lemma assignIds_passOk:
  "passOk sid st \<Longrightarrow> passOk sid (snd (assignIds sid t st))"
  "passOk sid st \<Longrightarrow> passOk sid (snd (assignIdsList sid ts st))"
proof (induction sid t st and sid ts st rule: assignIds_assignIdsList.induct)
  case (1 sid l b r n v cs st)
  from 1(2) have "passOk sid (snd (assignId sid (uniqueBackendId l b) st))"
    by (rule assignId_passOk)
  from 1(1) [OF prod.collapse this] show ?case
    by (simp add: assignIds_unfold passOk_def del: assignIds.simps)
next
  case (2 sid st)
  then show ?case by simp
next
  case (3 sid c cs st)
  from 3(2) [OF prod.collapse 3(1) [OF 3(3)]] show ?case
    by (simp add: assignIdsList_unfold del: assignIdsList.simps)
qed

lemma assignIds_ids:
  "n' \<in> set (snapNodes (fst (assignIds sid t st))) \<Longrightarrow>
     map_of (uniqueIdToMcpId (snd (assignIds sid t st))) (snapKey n') = Some (node_id n')"
  "n' \<in> set (concat (map snapNodes (fst (assignIdsList sid ts st)))) \<Longrightarrow>
     map_of (uniqueIdToMcpId (snd (assignIdsList sid ts st))) (snapKey n') = Some (node_id n')"
proof (induction sid t st and sid ts st rule: assignIds_assignIdsList.induct)
  case (1 sid l b r n v cs st)
  let ?a = "assignId sid (uniqueBackendId l b) st"
  let ?r = "assignIdsList sid cs (snd ?a)"
  from 1(2) have "n' = SnapNode (fst ?a) l b r n (optionValue r n v) (fst ?r) \<or>
      n' \<in> set (concat (map snapNodes (fst ?r)))"
    by (simp add: assignIds_unfold del: assignIds.simps)
  then show ?case
  proof
    assume e: "n' = SnapNode (fst ?a) l b r n (optionValue r n v) (fst ?r)"
    have "map_of (uniqueIdToMcpId (snd ?a)) (uniqueBackendId l b) = Some (fst ?a)"
      by (rule assignId_maps)
    then have "map_of (uniqueIdToMcpId (snd ?r)) (uniqueBackendId l b) = Some (fst ?a)"
      by (rule assignIds_keeps(2))
    with e show ?thesis
      by (simp add: assignIds_unfold snapKey_def del: assignIds.simps)
  next
    assume "n' \<in> set (concat (map snapNodes (fst ?r)))"
    from 1(1) [OF prod.collapse this] show ?thesis
      by (simp add: assignIds_unfold del: assignIds.simps)
  qed
next
  case (2 sid st)
  then show ?case by simp
next
  case (3 sid c cs st)
  let ?h = "assignIds sid c st"
  let ?r = "assignIdsList sid cs (snd ?h)"
  from 3(3) have "n' \<in> set (snapNodes (fst ?h)) \<or> n' \<in> set (concat (map snapNodes (fst ?r)))"
    by (auto simp add: assignIdsList_unfold simp del: assignIdsList.simps)
  then show ?case
  proof
    assume "n' \<in> set (snapNodes (fst ?h))"
    from 3(1) [OF this] have "map_of (uniqueIdToMcpId (snd ?h)) (snapKey n') = Some (node_id n')" .
    then have "map_of (uniqueIdToMcpId (snd ?r)) (snapKey n') = Some (node_id n')"
      by (rule assignIds_keeps(2))
    then show ?thesis by (simp add: assignIdsList_unfold del: assignIdsList.simps)
  next
    assume "n' \<in> set (concat (map snapNodes (fst ?r)))"
    from 3(2) [OF prod.collapse this] show ?thesis
      by (simp add: assignIdsList_unfold del: assignIdsList.simps)
  qed
qed

lemma assignIds_fields:
  "map (\<lambda>n. (role n, name n, node_value n)) (snapNodes (fst (assignIds sid t st))) =
   map (\<lambda>n. (ax_role n, ax_name n, optionValue (ax_role n) (ax_name n) (ax_value n))) (axNodes t)"
  "map (\<lambda>n. (role n, name n, node_value n)) (concat (map snapNodes (fst (assignIdsList sid ts st)))) =
   map (\<lambda>n. (ax_role n, ax_name n, optionValue (ax_role n) (ax_name n) (ax_value n))) (concat (map axNodes ts))"
  by (induction sid t st and sid ts st rule: assignIds_assignIdsList.induct)
     (auto split: prod.splits)


section \<open>The capture\<close>

lemma capture_page:
  assumes "map_of (mcpPages c) page = Some mp"
    and "res = assignIds (nextSnapshotId c) rn (freshIdState mp)"
  shows "\<exists>mp' sn. map_of (mcpPages (capture vb data page mp rn c)) page = Some mp' \<and>
           textSnapshot mp' = Some sn \<and> root sn = fst res \<and>
           idToNode sn = idToNodeAcc (snd res) \<and>
           uniqueBackendNodeIdToMcpId mp' = cleanUp (seenUniqueIds (snd res)) (uniqueIdToMcpId (snd res)) \<and>
           mcp_id mp' = mcp_id mp \<and> emulationSettings mp' = emulationSettings mp"
  using assms
  by (simp add: capture_def Let_def cleanUpPage_def markSelected_def attachSnapshot_def
        AList.update_conv' split: option.splits)

lemma capture_frame:
  "nextSnapshotId (capture vb data page mp rn c) = Suc (nextSnapshotId c)"
  "selectedPage (capture vb data page mp rn c) = selectedPage c"
  "focusedPagePerContext (capture vb data page mp rn c) = focusedPagePerContext c"
  "q \<noteq> page \<Longrightarrow> map_of (mcpPages (capture vb data page mp rn c)) q = map_of (mcpPages c) q"
  by (simp_all add: capture_def Let_def cleanUpPage_def markSelected_def
        AList.update_conv' split: option.splits)

lemma createTextSnapshot_ok:
  assumes "createTextSnapshot vb dd tp (Some rn) fetched (c, b) = (Inr (), c', b')"
    and "targetOrSelected tp c b = Inr page"
  shows "\<exists>mp. map_of (mcpPages c) page = Some mp \<and> b' = b \<and>
           c' = capture vb (case dd of Some d \<Rightarrow> d | None \<Rightarrow> fetched) page mp rn c"
  using assms by (auto simp: createTextSnapshot_def getMcpPage_def split: option.splits)

lemma stickyOk_passOk:
  "stickyOk sid (uniqueBackendNodeIdToMcpId mp) \<Longrightarrow> passOk sid (freshIdState mp)"
  unfolding stickyOk_def passOk_def freshIdState_def by simp blast

lemma passOk_cleanUp:
  assumes "passOk sid st"
  shows "stickyOk (Suc sid) (cleanUp seen (uniqueIdToMcpId st))"
  unfolding stickyOk_def
proof (intro conjI allI impI)
  fix k i
  assume "map_of (cleanUp seen (uniqueIdToMcpId st)) k = Some i"
  then have "map_of (uniqueIdToMcpId st) k = Some i"
    by (simp add: map_of_cleanUp split: if_splits)
  with assms obtain s c where sc: "i = mintId s c" "s < sid \<or> (s = sid \<and> c < idCounter st)"
    unfolding passOk_def by blast
  then have "s < Suc sid" by auto
  with sc(1) show "\<exists>s c. s < Suc sid \<and> i = mintId s c" by blast
next
  fix k k' i
  assume "map_of (cleanUp seen (uniqueIdToMcpId st)) k = Some i \<and>
          map_of (cleanUp seen (uniqueIdToMcpId st)) k' = Some i"
  then have "map_of (uniqueIdToMcpId st) k = Some i \<and> map_of (uniqueIdToMcpId st) k' = Some i"
    by (simp add: map_of_cleanUp split: if_splits)
  with assms show "k = k'" unfolding passOk_def by blast
qed

lemma stickyOk_mono: "stickyOk n m \<Longrightarrow> n \<le> n' \<Longrightarrow> stickyOk n' m"
  unfolding stickyOk_def by (meson less_le_trans)

lemma capture_stickyInv:
  assumes inv: "stickyInv c" and rec: "map_of (mcpPages c) page = Some mp"
  shows "stickyInv (capture vb data page mp rn c)"
  unfolding stickyInv_def
proof (intro allI impI)
  fix q mq
  assume q: "map_of (mcpPages (capture vb data page mp rn c)) q = Some mq"
  show "stickyOk (nextSnapshotId (capture vb data page mp rn c)) (uniqueBackendNodeIdToMcpId mq)"
  proof (cases "q = page")
    case True
    from inv rec have "stickyOk (nextSnapshotId c) (uniqueBackendNodeIdToMcpId mp)"
      unfolding stickyInv_def by blast
    then have "passOk (nextSnapshotId c) (freshIdState mp)" by (rule stickyOk_passOk)
    then have p: "passOk (nextSnapshotId c) (snd (assignIds (nextSnapshotId c) rn (freshIdState mp)))"
      by (rule assignIds_passOk(1))
    from capture_page [OF rec refl, of vb data rn] q True
    have "uniqueBackendNodeIdToMcpId mq =
        cleanUp (seenUniqueIds (snd (assignIds (nextSnapshotId c) rn (freshIdState mp))))
          (uniqueIdToMcpId (snd (assignIds (nextSnapshotId c) rn (freshIdState mp))))"
      by auto
    with passOk_cleanUp [OF p] show ?thesis by (simp add: capture_frame(1))
  next
    case False
    with q have "map_of (mcpPages c) q = Some mq" by (simp add: capture_frame(4))
    with inv have "stickyOk (nextSnapshotId c) (uniqueBackendNodeIdToMcpId mq)"
      unfolding stickyInv_def by blast
    then show ?thesis by (rule stickyOk_mono) (simp add: capture_frame(1))
  qed
qed


lemma stickyInv_no_ids:
  assumes "\<forall>e \<in> set (mcpPages c). uniqueBackendNodeIdToMcpId (snd e) = []"
  shows "stickyInv c"
  unfolding stickyInv_def
proof (intro allI impI)
  fix page mp
  assume "map_of (mcpPages c) page = Some mp"
  then have "(page, mp) \<in> set (mcpPages c)" by (rule map_of_SomeD)
  with assms have "uniqueBackendNodeIdToMcpId mp = []" by auto
  then show "stickyOk (nextSnapshotId c) (uniqueBackendNodeIdToMcpId mp)"
    by (simp add: stickyOk_def)
qed

lemma session_captures:
  "createTextSnapshot False (Some noData) (Some (Page 0 0)) (Some tree0) noData (fst w2, snd w2)
     = (Inr (), fst w3, snd w3)"
  "createTextSnapshot False (Some noData) (Some (Page 0 0)) (Some tree1) noData (fst w3, snd w3)
     = (Inr (), fst w5, snd w5)"
  "targetOrSelected (Some (Page 0 0)) (fst w2) (snd w2) = Inr (Page 0 0)"
  "targetOrSelected (Some (Page 0 0)) (fst w3) (snd w3) = Inr (Page 0 0)"
  "map_of (mcpPages (fst w3)) (Page 0 0) = Some (recordOf (fst w3) (Page 0 0))"
  "textSnapshot (recordOf (fst w3) (Page 0 0)) = Some (snapshotOf (fst w3) (Page 0 0))"
  "map_of (mcpPages (fst w5)) (Page 0 0) = Some (recordOf (fst w5) (Page 0 0))"
  "textSnapshot (recordOf (fst w5) (Page 0 0)) = Some (snapshotOf (fst w5) (Page 0 0))"
  by code_simp+

section \<open>Timeouts and the search loop\<close>


lemma crossPageSearch_none:
  assumes "\<forall>e \<in> set es. \<not> hasUid uid (snd e)"
  shows "crossPageSearch eh uid c b es anySnapshot =
           (if anySnapshot \<or> (\<exists>e \<in> set es. textSnapshot (snd e) \<noteq> None)
            then (Inl NoSuchElement, c) else (Inl NoSnapshotFound, c))"
  using assms
  by (induction es arbitrary: anySnapshot)
     (auto simp: hasUid_def nodeByUid_def split: option.splits)

lemma crossPageSearch_first:
  assumes "\<forall>e \<in> set pre. \<not> hasUid uid (snd e)"
    and "nodeByUid uid mp = Some node"
  shows "crossPageSearch eh uid c b (pre @ (p, mp) # post) anySnapshot =
           foundOnPage eh uid node p mp c b"
  using assms
  by (induction pre arbitrary: anySnapshot)
     (auto simp: hasUid_def nodeByUid_def split: option.splits)


section \<open>The registry refresh\<close>













section \<open>The sticky maps of reachable states\<close>

lemma stickyLe_refl: "stickyLe c c"
  by (auto simp: stickyLe_def)

lemma stickyLe_trans: "stickyLe a b \<Longrightarrow> stickyLe b c \<Longrightarrow> stickyLe a c"
  unfolding stickyLe_def by (metis order_trans)

lemma stickyLe_inv:
  assumes inv: "stickyInv c" and le: "stickyLe c c'"
  shows "stickyInv c'"
  unfolding stickyInv_def
proof (intro allI impI)
  fix q mp
  assume q: "map_of (mcpPages c') q = Some mp"
  from le have n: "nextSnapshotId c \<le> nextSnapshotId c'" by (simp add: stickyLe_def)
  from le q consider "uniqueBackendNodeIdToMcpId mp = []"
    | mp0 where "map_of (mcpPages c) q = Some mp0"
        "uniqueBackendNodeIdToMcpId mp = uniqueBackendNodeIdToMcpId mp0"
    unfolding stickyLe_def by blast
  then show "stickyOk (nextSnapshotId c') (uniqueBackendNodeIdToMcpId mp)"
  proof cases
    case 1
    then show ?thesis by (simp add: stickyOk_def)
  next
    case 2
    with inv have "stickyOk (nextSnapshotId c) (uniqueBackendNodeIdToMcpId mp0)"
      unfolding stickyInv_def by blast
    with 2 n show ?thesis by (simp add: stickyOk_mono)
  qed
qed

lemma stickyLe_same:
  "mcpPages c' = mcpPages c \<Longrightarrow> nextSnapshotId c' = nextSnapshotId c \<Longrightarrow> stickyLe c c'"
  by (auto simp: stickyLe_def)

lemma stickyLe_discover: "stickyLe (fst s) (fst (discover b known ctx s))"
  by (cases s) (auto simp: discover_def intro: stickyLe_same stickyLe_refl)

lemma stickyLe_registerPage: "stickyLe (fst w) (fst (registerPage names x w))"
  by (cases w)
     (auto simp: registerPage_def stickyLe_def newMcpPage_def AList.update_conv'
        split: option.splits if_splits)

lemma stickyLe_pruneMcpPage: "stickyLe (fst w) (fst (pruneMcpPage allPages x w))"
  by (cases w) (auto simp: pruneMcpPage_def stickyLe_def AList.delete_conv' split: if_splits)

lemma stickyLe_pruneFocus: "stickyLe c (pruneFocus allPages x c)"
  by (auto simp: pruneFocus_def intro: stickyLe_same stickyLe_refl)

lemma stickyLe_fold:
  assumes "\<And>x s. stickyLe (g s) (g (f x s))"
  shows "stickyLe (g s) (g (fold f xs s))"
proof (induction xs arbitrary: s)
  case Nil
  show ?case by (simp add: stickyLe_refl)
next
  case (Cons x xs)
  from assms [of s x] Cons [of "f x s"] show ?case by (auto intro: stickyLe_trans)
qed

lemma stickyLe_refreshRecords: "stickyLe c (fst (refreshRecords c b))"
proof -
  obtain allPages names c0 where g: "getAllPages c b = ((allPages, names), c0)"
    by (metis prod.collapse)
  obtain c1 b1 where r1: "fold (registerPage names) allPages (c0, b) = (c1, b1)"
    by (metis prod.collapse)
  obtain c2 b2 where r2: "fold (pruneMcpPage allPages) (map fst (mcpPages c1)) (c1, b1) = (c2, b2)"
    by (metis prod.collapse)
  have "stickyLe (fst (c, reverseLookup (isolatedContexts c)))
      (fst (fold (discover b (map snd (isolatedContexts c))) (browserContexts b)
              (c, reverseLookup (isolatedContexts c))))"
    by (rule stickyLe_fold) (rule stickyLe_discover)
  with g have a: "stickyLe c c0" by (auto simp: getAllPages_def split: prod.splits)
  have "stickyLe (fst (c0, b)) (fst (fold (registerPage names) allPages (c0, b)))"
    by (rule stickyLe_fold) (rule stickyLe_registerPage)
  with r1 have b: "stickyLe c0 c1" by simp
  have "stickyLe (fst (c1, b1)) (fst (fold (pruneMcpPage allPages) (map fst (mcpPages c1)) (c1, b1)))"
    by (rule stickyLe_fold) (rule stickyLe_pruneMcpPage)
  with r2 have c: "stickyLe c1 c2" by simp
  have d: "stickyLe c2 (fold (pruneFocus allPages) (focusedPagePerContext c2) c2)"
    using stickyLe_fold [of "\<lambda>s. s" "pruneFocus allPages" c2 "focusedPagePerContext c2"]
    by (simp add: stickyLe_pruneFocus)
  have e: "stickyLe (fold (pruneFocus allPages) (focusedPagePerContext c2) c2)
      ((fold (pruneFocus allPages) (focusedPagePerContext c2) c2)\<lparr>pages := visiblePages c2 b2 allPages\<rparr>)"
    by (rule stickyLe_same) simp_all
  from a b c d e have "stickyLe c
      ((fold (pruneFocus allPages) (focusedPagePerContext c2) c2)\<lparr>pages := visiblePages c2 b2 allPages\<rparr>)"
    by (blast intro: stickyLe_trans)
  then show ?thesis by (simp add: refreshRecords_def g r1 r2)
qed

lemma stickyLe_selectPage: "stickyLe c (fst (snd (selectPage page (c, b))))"
  by (rule stickyLe_same) (auto simp: selectPage_def setFocused_def split: prod.splits sum.splits)

lemma stickyLe_createPagesSnapshot: "stickyLe c (fst (snd (createPagesSnapshot (c, b))))"
proof -
  obtain c3 b3 where r: "refreshRecords c b = (c3, b3)" by (metis prod.collapse)
  from stickyLe_refreshRecords [of c b] r have a: "stickyLe c c3" by simp
  show ?thesis
  proof (cases "needsReselect c3")
    case True
    from stickyLe_selectPage [of c3 "hd (pages c3)" b3] a
    have "stickyLe c (fst (snd (selectPage (hd (pages c3)) (c3, b3))))"
      by (rule stickyLe_trans [rotated])
    with True r show ?thesis
      by (auto simp: createPagesSnapshot_def split: prod.splits sum.splits)
  next
    case False
    with r a show ?thesis by (simp add: createPagesSnapshot_def)
  qed
qed

lemma stickyLe_newPage: "stickyLe c (fst (snd (newPage background contextName (c, b))))"
proof -
  obtain page c1 b1 where op: "openPage background contextName (c, b) = (page, c1, b1)"
    by (metis prod.collapse)
  then have a: "stickyLe c c1"
    by (auto simp: openPage_def intro!: stickyLe_same split: option.splits prod.splits)
  obtain r2 c2 b2 where cp: "createPagesSnapshot (c1, b1) = (r2, c2, b2)" by (metis prod.collapse)
  from stickyLe_createPagesSnapshot [of c1 b1] cp a have b: "stickyLe c c2"
    by (auto intro: stickyLe_trans)
  from stickyLe_selectPage [of c2 page b2] b
  have "stickyLe c (fst (snd (selectPage page (c2, b2))))" by (rule stickyLe_trans [rotated])
  with b op cp show ?thesis
    by (auto simp: newPage_def split: prod.splits sum.splits)
qed

lemma stickyLe_closePage: "stickyLe c (fst (snd (closePage pageId (c, b))))"
  by (auto simp: closePage_def disposePage_def unfocusPage_def stickyLe_def AList.delete_conv'
        split: sum.splits option.splits if_splits)

lemma stickyLe_emulate: "stickyLe c (fst (snd (emulate predefined opts tp (c, b))))"
  by (auto simp: emulate_def storeSettings_def stickyLe_def getMcpPage_def AList.update_conv'
        split: sum.splits option.splits prod.splits if_splits)

lemma stickyLe_getElementByUid: "stickyLe c (fst (snd (getElementByUid eh uid tp (c, b))))"
proof (cases tp)
  case (Some p)
  then show ?thesis
    by (auto simp: getElementByUid_def intro: stickyLe_refl split: option.splits)
next
  case None
  have "stickyLe c (snd (crossPageSearch eh uid c b es a))" for es a
    by (induction es arbitrary: a)
       (auto simp: foundOnPage_def Let_def intro: stickyLe_refl stickyLe_same
          split: option.splits sum.splits)
  from this [of "mcpPages c" False] None show ?thesis
    by (cases "crossPageSearch eh uid c b (mcpPages c) False") (simp add: getElementByUid_def)
qed

lemma stickyInv_createTextSnapshot:
  "stickyInv c \<Longrightarrow> stickyInv (fst (snd (createTextSnapshot vb dd tp rn fetched (c, b))))"
  by (auto simp: createTextSnapshot_def getMcpPage_def capture_stickyInv
        split: sum.splits option.splits)

lemma reachable_stickyInv: "reachable w \<Longrightarrow> stickyInv (fst w)"
proof (induction rule: reachable.induct)
  case (created devToolsDebugging b)
  have "stickyInv (emptyContext devToolsDebugging)"
    by (rule stickyInv_no_ids) (simp add: emptyContext_def)
  then show ?case
    using stickyLe_createPagesSnapshot [of "emptyContext devToolsDebugging" b]
    by (auto simp: fromBrowser_def intro: stickyLe_inv)
next
  case (driver c b b')
  then show ?case by simp
next
  case (setRequestPage c b p)
  have "stickyLe c (c\<lparr>requestPage := p\<rparr>)" by (rule stickyLe_same) simp_all
  with setRequestPage.IH show ?case by (auto intro: stickyLe_inv)
next
  case (refreshed w)
  then show ?case using stickyLe_createPagesSnapshot [of "fst w" "snd w"]
    by (auto intro: stickyLe_inv)
next
  case (opened w background contextName)
  then show ?case using stickyLe_newPage [of "fst w" background contextName "snd w"]
    by (auto intro: stickyLe_inv)
next
  case (closed w pageId)
  then show ?case using stickyLe_closePage [of "fst w" pageId "snd w"]
    by (auto intro: stickyLe_inv)
next
  case (selected w page)
  then show ?case using stickyLe_selectPage [of "fst w" page "snd w"]
    by (auto intro: stickyLe_inv)
next
  case (captured w vb dd tp rn fetched)
  then show ?case using stickyInv_createTextSnapshot [of "fst w" vb dd tp rn fetched "snd w"]
    by simp
next
  case (emulated w predefined opts tp)
  then show ?case using stickyLe_emulate [of "fst w" predefined opts tp "snd w"]
    by (auto intro: stickyLe_inv)
next
  case (looked_up w eh uid tp)
  then show ?case using stickyLe_getElementByUid [of "fst w" eh uid tp "snd w"]
    by (auto intro: stickyLe_inv)
qed


section \<open>Closing the last page\<close>





section \<open>Focus\<close>

text \<open>
  C5. After \<open>selectPage q\<close>, whether or not the timeout update threw, the focus map
  sends the context of \<open>q\<close> to \<open>q\<close> and to no other page, and the entry of every
  other context is the one before the call.
\<close>

theorem selectPage_focus:
  assumes "selectPage q (c, b) = (r, c', b')"
  shows "map_of (focusedPagePerContext c') (browserContext q) = Some q \<and>
         (\<forall>f. f \<noteq> q \<longrightarrow> map_of (focusedPagePerContext c') (browserContext q) \<noteq> Some f) \<and>
         (\<forall>ctx. ctx \<noteq> browserContext q \<longrightarrow>
            map_of (focusedPagePerContext c') ctx = map_of (focusedPagePerContext c) ctx)"
proof -
  have "c' = setFocused q c"
    using assms by (auto simp: selectPage_def split: prod.splits sum.splits)
  then show ?thesis by (simp add: setFocused_def AList.update_conv')
qed

theorem selectPage_focus_witness:
  "map_of (focusedPagePerContext (fst w2)) 0 = Some (Page 1 0) \<and>
   map_of (focusedPagePerContext (fst (snd (selectPage (Page 0 0) (fst w2, snd w2))))) 0
     = Some (Page 0 0) \<and>
   map_of (focusedPagePerContext (fst (snd (selectPage (Page 0 0) (fst w2, snd w2))))) 5
     = map_of (focusedPagePerContext (fst w2)) 5"
proof -
  obtain r c' b' where h: "selectPage (Page 0 0) (fst w2, snd w2) = (r, c', b')"
    by (cases "selectPage (Page 0 0) (fst w2, snd w2)")
  have old: "map_of (focusedPagePerContext (fst w2)) 0 = Some (Page 1 0)" by code_simp
  show ?thesis using selectPage_focus [OF h] h old by simp
qed

text \<open>
  C6, as the code has it. \<open>assertPageIsFocused\<close> fails exactly when the focus map
  has an entry for the page's context and that entry is another page; the error
  then names the id of the page and the id of the focused page. A context
  without an entry passes.
\<close>

theorem assertPageIsFocused_fails_iff:
  "assertPageIsFocused c page = Inl e \<longleftrightarrow>
     (\<exists>f. map_of (focusedPagePerContext c) (browserContext page) = Some f \<and> f \<noteq> page \<and>
          e = NotActivePage (getPageId c page) (getPageId c f))"
  by (auto simp: assertPageIsFocused_def split: option.splits if_splits)

theorem assertPageIsFocused_fails_iff_witness:
  "assertPageIsFocused (fst w2) (Page 0 0) = Inl (NotActivePage (Some 1) (Some 2)) \<and>
   map_of (focusedPagePerContext (fst w2)) (browserContext (Page 0 0)) = Some (Page 1 0)"
proof -
  have h: "map_of (focusedPagePerContext (fst w2)) (browserContext (Page 0 0)) = Some (Page 1 0)"
    by code_simp
  have i1: "getPageId (fst w2) (Page 0 0) = Some 1" by code_simp
  have i2: "getPageId (fst w2) (Page 1 0) = Some 2" by code_simp
  show ?thesis
    using assertPageIsFocused_fails_iff [of "fst w2" "Page 0 0" "NotActivePage (Some 1) (Some 2)"]
      h i1 i2 by simp
qed

text \<open>
  C6 as stated fails: after the focused page of the default context was closed,
  the context has no entry, so the remaining page is not the entry, and the call
  passes.
\<close>

theorem assertPageIsFocused_no_entry_passes:
  "map_of (focusedPagePerContext (fst w4)) (browserContext (Page 0 0)) \<noteq> Some (Page 0 0) \<and>
   assertPageIsFocused (fst w4) (Page 0 0) = Inr ()"
  by code_simp

section \<open>Opening a page in the background\<close>





section \<open>Unscoped element lookup\<close>

text \<open>
  C4, as the code has it. For \<open>getElementByUid(uid)\<close> without a page:
  (i) no record has a snapshot: the no-snapshot error;
  (ii) some record has a snapshot and none indexes the uid: the unknown-uid error;
  (iii) the first record, in registry order, whose snapshot indexes the uid belongs
  to page \<open>p\<close>, and the focus map sends the context of \<open>p\<close> to another page \<open>f\<close>:
  the focus error naming \<open>p\<close> and \<open>f\<close>; the context has no entry: the focus
  error naming \<open>p\<close> and the globally selected page when \<open>getSelectedMcpPage\<close>
  returns one, and the error of \<open>getSelectedMcpPage\<close> itself when it throws;
  (iv) the entry is \<open>p\<close>: the selected pointer becomes \<open>p\<close> and the node is resolved.
  In every failing case the session state is unchanged.
\<close>

theorem getElementByUid_unscoped_cases:
  "((\<forall>e \<in> set (mcpPages c). textSnapshot (snd e) = None) \<longrightarrow>
      getElementByUid eh uid None (c, b) = (Inl NoSnapshotFound, c, b)) \<and>
   ((\<exists>e \<in> set (mcpPages c). textSnapshot (snd e) \<noteq> None) \<and>
    (\<forall>e \<in> set (mcpPages c). \<not> hasUid uid (snd e)) \<longrightarrow>
      getElementByUid eh uid None (c, b) = (Inl NoSuchElement, c, b)) \<and>
   (mcpPages c = pre @ (p, mp) # post \<and> (\<forall>e \<in> set pre. \<not> hasUid uid (snd e)) \<and>
    nodeByUid uid mp = Some node \<longrightarrow>
      (\<forall>f. map_of (focusedPagePerContext c) (browserContext p) = Some f \<and> f \<noteq> p \<longrightarrow>
         getElementByUid eh uid None (c, b) =
           (Inl (UidOnOtherPage uid (mcp_id mp) (getPageId c f)), c, b)) \<and>
      (\<forall>smp. map_of (focusedPagePerContext c) (browserContext p) = None \<and>
             getSelectedMcpPage c b = Inr smp \<longrightarrow>
         getElementByUid eh uid None (c, b) =
           (Inl (UidOnOtherPage uid (mcp_id mp) (Some (mcp_id smp))), c, b)) \<and>
      (\<forall>e. map_of (focusedPagePerContext c) (browserContext p) = None \<and>
           getSelectedMcpPage c b = Inl e \<longrightarrow>
         getElementByUid eh uid None (c, b) = (Inl e, c, b)) \<and>
      (map_of (focusedPagePerContext c) (browserContext p) = Some p \<longrightarrow>
         getElementByUid eh uid None (c, b) =
           (resolveElementHandle eh node uid, c\<lparr>selectedPage := Some p\<rparr>, b)))"
proof (intro conjI impI)
  assume a: "\<forall>e \<in> set (mcpPages c). textSnapshot (snd e) = None"
  then have "\<forall>e \<in> set (mcpPages c). \<not> hasUid uid (snd e)"
    by (simp add: hasUid_def nodeByUid_def)
  from crossPageSearch_none [OF this] a
  show "getElementByUid eh uid None (c, b) = (Inl NoSnapshotFound, c, b)"
    by (simp add: getElementByUid_def)
next
  assume a: "(\<exists>e \<in> set (mcpPages c). textSnapshot (snd e) \<noteq> None) \<and>
    (\<forall>e \<in> set (mcpPages c). \<not> hasUid uid (snd e))"
  then have n: "\<forall>e \<in> set (mcpPages c). \<not> hasUid uid (snd e)" by simp
  from crossPageSearch_none [OF n] a
  show "getElementByUid eh uid None (c, b) = (Inl NoSuchElement, c, b)"
    by (simp add: getElementByUid_def)
next
  assume a: "mcpPages c = pre @ (p, mp) # post \<and> (\<forall>e \<in> set pre. \<not> hasUid uid (snd e)) \<and>
    nodeByUid uid mp = Some node"
  then have s: "getElementByUid eh uid None (c, b) =
      (fst (foundOnPage eh uid node p mp c b), snd (foundOnPage eh uid node p mp c b), b)"
    using crossPageSearch_first [of pre uid mp node eh c b p post False]
    by (simp add: getElementByUid_def split: prod.splits)
  show "\<forall>f. map_of (focusedPagePerContext c) (browserContext p) = Some f \<and> f \<noteq> p \<longrightarrow>
         getElementByUid eh uid None (c, b) =
           (Inl (UidOnOtherPage uid (mcp_id mp) (getPageId c f)), c, b)"
    by (auto simp: s foundOnPage_def)
  show "\<forall>smp. map_of (focusedPagePerContext c) (browserContext p) = None \<and>
             getSelectedMcpPage c b = Inr smp \<longrightarrow>
         getElementByUid eh uid None (c, b) =
           (Inl (UidOnOtherPage uid (mcp_id mp) (Some (mcp_id smp))), c, b)"
    by (auto simp: s foundOnPage_def)
  show "\<forall>e. map_of (focusedPagePerContext c) (browserContext p) = None \<and>
           getSelectedMcpPage c b = Inl e \<longrightarrow>
         getElementByUid eh uid None (c, b) = (Inl e, c, b)"
    by (auto simp: s foundOnPage_def)
  show "map_of (focusedPagePerContext c) (browserContext p) = Some p \<Longrightarrow>
         getElementByUid eh uid None (c, b) =
           (resolveElementHandle eh node uid, c\<lparr>selectedPage := Some p\<rparr>, b)"
    by (auto simp: s foundOnPage_def)
qed


theorem getElementByUid_unscoped_cases_witness:
  "getElementByUid handle7 ''1_0'' None (fst w2, snd w2) = (Inl NoSnapshotFound, fst w2, snd w2) \<and>
   getElementByUid handle7 ''9_9'' None (fst w3, snd w3) = (Inl NoSuchElement, fst w3, snd w3) \<and>
   getElementByUid handle7 ''1_0'' None (fst w3, snd w3)
     = (Inl (UidOnOtherPage ''1_0'' 1 (Some 2)), fst w3, snd w3) \<and>
   getElementByUid handle7 ''1_0'' None (fst w6, snd w6)
     = (Inr 7, (fst w6)\<lparr>selectedPage := Some (Page 0 0)\<rparr>, snd w6)"
proof -
  have h1: "\<forall>e \<in> set (mcpPages (fst w2)). textSnapshot (snd e) = None" by code_simp
  have h2: "(\<exists>e \<in> set (mcpPages (fst w3)). textSnapshot (snd e) \<noteq> None) \<and>
            (\<forall>e \<in> set (mcpPages (fst w3)). \<not> hasUid ''9_9'' (snd e))" by code_simp
  have h3: "mcpPages (fst w3) = [] @ (Page 0 0, recordOf (fst w3) (Page 0 0)) # tl (mcpPages (fst w3)) \<and>
            (\<forall>e \<in> set []. \<not> hasUid ''1_0'' (snd e)) \<and>
            nodeByUid ''1_0'' (recordOf (fst w3) (Page 0 0)) = Some (root (snapshotOf (fst w3) (Page 0 0)))"
    by code_simp
  have f3: "map_of (focusedPagePerContext (fst w3)) (browserContext (Page 0 0)) = Some (Page 1 0) \<and>
            Page 1 0 \<noteq> Page 0 0" by code_simp
  have i3: "mcp_id (recordOf (fst w3) (Page 0 0)) = 1" "getPageId (fst w3) (Page 1 0) = Some 2"
    by code_simp+
  have h4: "mcpPages (fst w6) = [] @ (Page 0 0, recordOf (fst w6) (Page 0 0)) # tl (mcpPages (fst w6)) \<and>
            (\<forall>e \<in> set []. \<not> hasUid ''1_0'' (snd e)) \<and>
            nodeByUid ''1_0'' (recordOf (fst w6) (Page 0 0)) = Some (root (snapshotOf (fst w6) (Page 0 0)))"
    by code_simp
  have f4: "map_of (focusedPagePerContext (fst w6)) (browserContext (Page 0 0)) = Some (Page 0 0)"
    by code_simp
  have r4: "resolveElementHandle handle7 (root (snapshotOf (fst w6) (Page 0 0))) ''1_0'' = Inr 7"
    by code_simp
  from getElementByUid_unscoped_cases [of "fst w2" handle7 "''1_0''" "snd w2"] h1
  have A: "getElementByUid handle7 ''1_0'' None (fst w2, snd w2) = (Inl NoSnapshotFound, fst w2, snd w2)"
    by blast
  from getElementByUid_unscoped_cases [of "fst w3" handle7 "''9_9''" "snd w3"] h2
  have B: "getElementByUid handle7 ''9_9'' None (fst w3, snd w3) = (Inl NoSuchElement, fst w3, snd w3)"
    by blast
  from getElementByUid_unscoped_cases [of "fst w3" handle7 "''1_0''" "snd w3" "[]" "Page 0 0"
      "recordOf (fst w3) (Page 0 0)" "tl (mcpPages (fst w3))" "root (snapshotOf (fst w3) (Page 0 0))"] h3 f3
  have "getElementByUid handle7 ''1_0'' None (fst w3, snd w3) =
      (Inl (UidOnOtherPage ''1_0'' (mcp_id (recordOf (fst w3) (Page 0 0))) (getPageId (fst w3) (Page 1 0))),
       fst w3, snd w3)"
    by blast
  then have C: "getElementByUid handle7 ''1_0'' None (fst w3, snd w3)
     = (Inl (UidOnOtherPage ''1_0'' 1 (Some 2)), fst w3, snd w3)" by (simp only: i3)
  from getElementByUid_unscoped_cases [of "fst w6" handle7 "''1_0''" "snd w6" "[]" "Page 0 0"
      "recordOf (fst w6) (Page 0 0)" "tl (mcpPages (fst w6))" "root (snapshotOf (fst w6) (Page 0 0))"] h4 f4
  have "getElementByUid handle7 ''1_0'' None (fst w6, snd w6) =
      (resolveElementHandle handle7 (root (snapshotOf (fst w6) (Page 0 0))) ''1_0'',
       (fst w6)\<lparr>selectedPage := Some (Page 0 0)\<rparr>, snd w6)"
    by blast
  then have D: "getElementByUid handle7 ''1_0'' None (fst w6, snd w6)
     = (Inr 7, (fst w6)\<lparr>selectedPage := Some (Page 0 0)\<rparr>, snd w6)" by (simp only: r4)
  from A B C D show ?thesis by simp
qed

text \<open>
  C4 as stated fails in case (iii): the uid is found on the first page, whose
  context has no focus entry after its focused page was closed; the closed page is
  still the selected one, so the fallback throws and the call ends in the
  selected-page-closed error, not in the focus error.
\<close>

theorem getElementByUid_selected_closed:
  "map_option (hasUid ''1_0'') (map_of (mcpPages (fst w4)) (Page 0 0)) = Some True \<and>
   map_of (focusedPagePerContext (fst w4)) (browserContext (Page 0 0)) = None \<and>
   selectedPage (fst w4) = Some (Page 1 0) \<and>
   getPageId (fst w4) (Page 0 0) = Some 1 \<and>
   fst (getElementByUid handle7 ''1_0'' None w4) = Inl SelectedPageClosed"
  by code_simp

section \<open>Timeouts after emulation\<close>






section \<open>Snapshot identifiers\<close>

text \<open>
  C1. Two successive captures of a page: a node of the first snapshot and a node
  of the second snapshot with the same backend key have the same identifier, and
  it is the identifier that the page's sticky map holds for the key after each
  of the two captures.
\<close>

theorem stable_identity:
  assumes cap1: "createTextSnapshot vb1 dd1 tp1 (Some rn1) f1 (c0, b0) = (Inr (), c1, b1)"
    and tgt1: "targetOrSelected tp1 c0 b0 = Inr page"
    and cap2: "createTextSnapshot vb2 dd2 tp2 (Some rn2) f2 (c1, b1) = (Inr (), c2, b2)"
    and tgt2: "targetOrSelected tp2 c1 b1 = Inr page"
    and s1: "map_of (mcpPages c1) page = Some mp1" "textSnapshot mp1 = Some sn1"
    and s2: "map_of (mcpPages c2) page = Some mp2" "textSnapshot mp2 = Some sn2"
    and n1: "n1 \<in> set (snapNodes (root sn1))"
    and n2: "n2 \<in> set (snapNodes (root sn2))"
    and key: "snapKey n1 = snapKey n2"
  shows "node_id n1 = node_id n2 \<and>
         map_of (uniqueBackendNodeIdToMcpId mp1) (snapKey n1) = Some (node_id n1) \<and>
         map_of (uniqueBackendNodeIdToMcpId mp2) (snapKey n2) = Some (node_id n2)"
proof -
  from createTextSnapshot_ok [OF cap1 tgt1] obtain mp0 d1 where
    rec0: "map_of (mcpPages c0) page = Some mp0" and c1: "c1 = capture vb1 d1 page mp0 rn1 c0"
    by blast
  let ?res1 = "assignIds (nextSnapshotId c0) rn1 (freshIdState mp0)"
  from capture_page [OF rec0 refl, of vb1 d1 rn1] s1 c1
  have root1: "root sn1 = fst ?res1"
    and sticky1: "uniqueBackendNodeIdToMcpId mp1 =
      cleanUp (seenUniqueIds (snd ?res1)) (uniqueIdToMcpId (snd ?res1))"
    by auto
  from n1 root1 have m1: "map_of (uniqueIdToMcpId (snd ?res1)) (snapKey n1) = Some (node_id n1)"
    by (simp add: assignIds_ids(1))
  from n1 root1 have "snapKey n1 \<in> set (map snapKey (snapNodes (fst ?res1)))" by simp
  then have "snapKey n1 \<in> set (seenUniqueIds (snd ?res1))"
    by (simp add: assignIds_keys(1) assignIds_seen(1))
  with m1 sticky1 have old: "map_of (uniqueBackendNodeIdToMcpId mp1) (snapKey n1) = Some (node_id n1)"
    by (simp add: map_of_cleanUp)
  from createTextSnapshot_ok [OF cap2 tgt2] s1 obtain d2 where
    c2: "c2 = capture vb2 d2 page mp1 rn2 c1"
    by auto
  let ?res2 = "assignIds (nextSnapshotId c1) rn2 (freshIdState mp1)"
  from capture_page [OF s1(1) refl, of vb2 d2 rn2] s2 c2
  have root2: "root sn2 = fst ?res2"
    and sticky2: "uniqueBackendNodeIdToMcpId mp2 =
      cleanUp (seenUniqueIds (snd ?res2)) (uniqueIdToMcpId (snd ?res2))"
    by auto
  from old have "map_of (uniqueIdToMcpId (freshIdState mp1)) (snapKey n1) = Some (node_id n1)"
    by (simp add: freshIdState_def)
  then have "map_of (uniqueIdToMcpId (snd ?res2)) (snapKey n1) = Some (node_id n1)"
    by (rule assignIds_keeps(1))
  moreover from n2 root2 have m2: "map_of (uniqueIdToMcpId (snd ?res2)) (snapKey n2) = Some (node_id n2)"
    by (simp add: assignIds_ids(1))
  ultimately have same: "node_id n1 = node_id n2" using key by simp
  from n2 root2 have "snapKey n2 \<in> set (map snapKey (snapNodes (fst ?res2)))" by simp
  then have "snapKey n2 \<in> set (seenUniqueIds (snd ?res2))"
    by (simp add: assignIds_keys(1) assignIds_seen(1))
  with m2 sticky2 have "map_of (uniqueBackendNodeIdToMcpId mp2) (snapKey n2) = Some (node_id n2)"
    by (simp add: map_of_cleanUp)
  with same old show ?thesis by simp
qed


theorem stable_identity_witness:
  "snapKey (children (root (snapshotOf (fst w3) (Page 0 0))) ! 0) = ''L_2'' \<and>
   snapKey (children (root (snapshotOf (fst w5) (Page 0 0))) ! 1) = ''L_2'' \<and>
   node_id (children (root (snapshotOf (fst w3) (Page 0 0))) ! 0) = ''1_1'' \<and>
   node_id (children (root (snapshotOf (fst w5) (Page 0 0))) ! 1) = ''1_1''"
proof -
  let ?n1 = "children (root (snapshotOf (fst w3) (Page 0 0))) ! 0"
  let ?n2 = "children (root (snapshotOf (fst w5) (Page 0 0))) ! 1"
  have n1: "?n1 \<in> set (snapNodes (root (snapshotOf (fst w3) (Page 0 0))))" by code_simp
  have n2: "?n2 \<in> set (snapNodes (root (snapshotOf (fst w5) (Page 0 0))))" by code_simp
  have k1: "snapKey ?n1 = ''L_2''" by code_simp
  have k2: "snapKey ?n2 = ''L_2''" by code_simp
  have i1: "node_id ?n1 = ''1_1''" by code_simp
  from k1 k2 have key: "snapKey ?n1 = snapKey ?n2" by simp
  from stable_identity [OF session_captures(1) session_captures(3) session_captures(2)
      session_captures(4) session_captures(5) session_captures(6) session_captures(7)
      session_captures(8) n1 n2 key] k1 k2 i1
  show ?thesis by simp
qed

text \<open>
  C2. Two successive captures of a page, starting in a reachable state: when the
  backend key of a node of the first snapshot is not in the second captured tree,
  the node's identifier is not in the index of the second snapshot, the sticky
  map has no entry for the key any more, and a lookup of the identifier on the
  page ends in the unknown-uid error.
\<close>

theorem vanished_node_collected:
  assumes reach: "reachable (c0, b0)"
    and cap1: "createTextSnapshot vb1 dd1 tp1 (Some rn1) f1 (c0, b0) = (Inr (), c1, b1)"
    and tgt1: "targetOrSelected tp1 c0 b0 = Inr page"
    and cap2: "createTextSnapshot vb2 dd2 tp2 (Some rn2) f2 (c1, b1) = (Inr (), c2, b2)"
    and tgt2: "targetOrSelected tp2 c1 b1 = Inr page"
    and s1: "map_of (mcpPages c1) page = Some mp1" "textSnapshot mp1 = Some sn1"
    and s2: "map_of (mcpPages c2) page = Some mp2" "textSnapshot mp2 = Some sn2"
    and n1: "n1 \<in> set (snapNodes (root sn1))"
    and gone: "snapKey n1 \<notin> axKey ` set (axNodes rn2)"
  shows "map_of (idToNode sn2) (node_id n1) = None \<and>
         map_of (uniqueBackendNodeIdToMcpId mp2) (snapKey n1) = None \<and>
         getElementByUid eh (node_id n1) (Some page) (c2, b2) =
           (Inl (UidNotOnPage (node_id n1) (mcp_id mp2)), c2, b2)"
proof -
  from reachable_stickyInv [OF reach] have inv: "stickyInv c0" by simp
  from createTextSnapshot_ok [OF cap1 tgt1] obtain mp0 d1 where
    rec0: "map_of (mcpPages c0) page = Some mp0" and c1: "c1 = capture vb1 d1 page mp0 rn1 c0"
    by blast
  let ?res1 = "assignIds (nextSnapshotId c0) rn1 (freshIdState mp0)"
  from capture_page [OF rec0 refl, of vb1 d1 rn1] s1 c1
  have root1: "root sn1 = fst ?res1"
    and sticky1: "uniqueBackendNodeIdToMcpId mp1 =
      cleanUp (seenUniqueIds (snd ?res1)) (uniqueIdToMcpId (snd ?res1))"
    by auto
  from n1 root1 have m1: "map_of (uniqueIdToMcpId (snd ?res1)) (snapKey n1) = Some (node_id n1)"
    by (simp add: assignIds_ids(1))
  from n1 root1 have "snapKey n1 \<in> set (map snapKey (snapNodes (fst ?res1)))" by simp
  then have "snapKey n1 \<in> set (seenUniqueIds (snd ?res1))"
    by (simp add: assignIds_keys(1) assignIds_seen(1))
  with m1 sticky1 have old: "map_of (uniqueBackendNodeIdToMcpId mp1) (snapKey n1) = Some (node_id n1)"
    by (simp add: map_of_cleanUp)
  from capture_stickyInv [OF inv rec0] c1 have inv1: "stickyInv c1" by simp
  from createTextSnapshot_ok [OF cap2 tgt2] s1 obtain d2 where
    c2: "c2 = capture vb2 d2 page mp1 rn2 c1"
    by auto
  let ?res2 = "assignIds (nextSnapshotId c1) rn2 (freshIdState mp1)"
  from capture_page [OF s1(1) refl, of vb2 d2 rn2] s2 c2
  have root2: "root sn2 = fst ?res2"
    and index2: "idToNode sn2 = idToNodeAcc (snd ?res2)"
    and sticky2: "uniqueBackendNodeIdToMcpId mp2 =
      cleanUp (seenUniqueIds (snd ?res2)) (uniqueIdToMcpId (snd ?res2))"
    by auto
  have seen2: "set (seenUniqueIds (snd ?res2)) = axKey ` set (axNodes rn2)"
    by (simp add: assignIds_seen(1) freshIdState_def)
  with gone sticky2 have A: "map_of (uniqueBackendNodeIdToMcpId mp2) (snapKey n1) = None"
    by (simp add: map_of_cleanUp)
  from inv1 s1 have "stickyOk (nextSnapshotId c1) (uniqueBackendNodeIdToMcpId mp1)"
    unfolding stickyInv_def by blast
  then have "passOk (nextSnapshotId c1) (freshIdState mp1)" by (rule stickyOk_passOk)
  then have p2: "passOk (nextSnapshotId c1) (snd ?res2)" by (rule assignIds_passOk(1))
  from old have "map_of (uniqueIdToMcpId (freshIdState mp1)) (snapKey n1) = Some (node_id n1)"
    by (simp add: freshIdState_def)
  then have kept: "map_of (uniqueIdToMcpId (snd ?res2)) (snapKey n1) = Some (node_id n1)"
    by (rule assignIds_keeps(1))
  have B: "map_of (idToNode sn2) (node_id n1) = None"
  proof (rule ccontr)
    assume "map_of (idToNode sn2) (node_id n1) \<noteq> None"
    then have "node_id n1 \<in> fst ` set (idToNodeAcc (snd ?res2))"
      by (simp add: index2 map_of_eq_None_iff)
    then have "node_id n1 \<in> node_id ` set (snapNodes (fst ?res2))"
      by (simp add: assignIds_index(1) freshIdState_def)
    then obtain n2 where n2: "n2 \<in> set (snapNodes (fst ?res2))" and e: "node_id n2 = node_id n1"
      by auto
    from n2 have "map_of (uniqueIdToMcpId (snd ?res2)) (snapKey n2) = Some (node_id n2)"
      by (rule assignIds_ids(1))
    with kept e p2 have "snapKey n2 = snapKey n1" unfolding passOk_def by metis
    moreover from n2 have "snapKey n2 \<in> set (map snapKey (snapNodes (fst ?res2)))" by simp
    ultimately have "snapKey n1 \<in> axKey ` set (axNodes rn2)"
      by (simp add: assignIds_keys(1))
    with gone show False by simp
  qed
  from capture_page [OF s1(1) refl, of vb2 d2 rn2] s2 c2 have "mcp_id mp2 = mcp_id mp1" by auto
  with A B s2 show ?thesis by (simp add: getElementByUid_def)
qed

theorem vanished_node_collected_witness:
  "snapKey (children (root (snapshotOf (fst w3) (Page 0 0))) ! 1) = ''L_3'' \<and>
   node_id (children (root (snapshotOf (fst w3) (Page 0 0))) ! 1) = ''1_2'' \<and>
   map_of (idToNode (snapshotOf (fst w3) (Page 0 0))) ''1_2'' \<noteq> None \<and>
   map_of (idToNode (snapshotOf (fst w5) (Page 0 0))) ''1_2'' = None \<and>
   map_of (uniqueBackendNodeIdToMcpId (recordOf (fst w5) (Page 0 0))) ''L_3'' = None"
proof -
  let ?n1 = "children (root (snapshotOf (fst w3) (Page 0 0))) ! 1"
  have "reachable w1" unfolding w1_def by (rule reachable.created)
  then have "reachable w2" unfolding w2_def by (rule reachable.opened)
  then have inv: "reachable (fst w2, snd w2)" by simp
  have n1: "?n1 \<in> set (snapNodes (root (snapshotOf (fst w3) (Page 0 0))))" by code_simp
  have k1: "snapKey ?n1 = ''L_3''" by code_simp
  have i1: "node_id ?n1 = ''1_2''" by code_simp
  have "''L_3'' \<notin> axKey ` set (axNodes tree1)" by code_simp
  with k1 have gone: "snapKey ?n1 \<notin> axKey ` set (axNodes tree1)" by simp
  have before: "map_of (idToNode (snapshotOf (fst w3) (Page 0 0))) ''1_2'' \<noteq> None" by code_simp
  from vanished_node_collected [OF inv session_captures(1) session_captures(3) session_captures(2)
      session_captures(4) session_captures(5) session_captures(6) session_captures(7)
      session_captures(8) n1 gone] k1 i1 before
  show ?thesis by simp
qed

section \<open>Option nodes\<close>

text \<open>
  C9, as the code has it. Node by node, the snapshot keeps key, role and name of the
  captured tree; the value of an option node with a non-empty name is that name,
  whether or not the tree exposed a value, and every other node keeps the value
  the tree exposed.
\<close>

theorem createTextSnapshot_option_value:
  assumes cap: "createTextSnapshot vb dd tp (Some rn) f (c, b) = (Inr (), c', b')"
    and tgt: "targetOrSelected tp c b = Inr page"
    and s: "map_of (mcpPages c') page = Some mp'" "textSnapshot mp' = Some sn"
  shows "map (\<lambda>n. (snapKey n, role n, name n, node_value n)) (snapNodes (root sn)) =
         map (\<lambda>n. (axKey n, ax_role n, ax_name n,
                     if ax_role n = ''option'' \<and> ax_name n \<noteq> None \<and> ax_name n \<noteq> Some []
                     then map_option StrValue (ax_name n) else ax_value n))
           (axNodes rn)"
proof -
  from createTextSnapshot_ok [OF cap tgt] obtain mp d where
    rec: "map_of (mcpPages c) page = Some mp" and c': "c' = capture vb d page mp rn c"
    by blast
  from capture_page [OF rec refl, of vb d rn] s c'
  have r: "root sn = fst (assignIds (nextSnapshotId c) rn (freshIdState mp))" by auto
  have o: "optionValue r n v =
      (if r = ''option'' \<and> n \<noteq> None \<and> n \<noteq> Some [] then map_option StrValue n else v)" for r n v
    by (auto simp: optionValue_def split: option.splits)
  have k: "map snapKey (snapNodes (root sn)) = map axKey (axNodes rn)"
    by (simp add: r assignIds_keys(1))
  have f: "map (\<lambda>n. (role n, name n, node_value n)) (snapNodes (root sn)) =
      map (\<lambda>n. (ax_role n, ax_name n,
                  if ax_role n = ''option'' \<and> ax_name n \<noteq> None \<and> ax_name n \<noteq> Some []
                  then map_option StrValue (ax_name n) else ax_value n)) (axNodes rn)"
    using assignIds_fields(1) [of "nextSnapshotId c" rn "freshIdState mp"] by (simp add: r o)
  have "map (\<lambda>n. (snapKey n, role n, name n, node_value n)) (snapNodes (root sn)) =
      zip (map snapKey (snapNodes (root sn)))
          (map (\<lambda>n. (role n, name n, node_value n)) (snapNodes (root sn)))"
    by (simp add: zip_map_map zip_same_conv_map)
  also have "\<dots> = zip (map axKey (axNodes rn))
      (map (\<lambda>n. (ax_role n, ax_name n,
                  if ax_role n = ''option'' \<and> ax_name n \<noteq> None \<and> ax_name n \<noteq> Some []
                  then map_option StrValue (ax_name n) else ax_value n)) (axNodes rn))"
    by (simp only: k f)
  also have "\<dots> = map (\<lambda>n. (axKey n, ax_role n, ax_name n,
                     if ax_role n = ''option'' \<and> ax_name n \<noteq> None \<and> ax_name n \<noteq> Some []
                     then map_option StrValue (ax_name n) else ax_value n)) (axNodes rn)"
    by (simp add: zip_map_map zip_same_conv_map)
  finally show ?thesis .
qed

theorem createTextSnapshot_option_value_witness:
  "map (\<lambda>n. (snapKey n, role n, name n, node_value n))
     (snapNodes (root (snapshotOf (fst w3) (Page 0 0)))) =
   [(''L_1'', ''RootWebArea'', Some ''t'', None),
    (''L_2'', ''button'', Some ''Go'', None),
    (''L_3'', ''option'', Some ''A'', Some (StrValue ''A''))]"
proof -
  have "map (\<lambda>n. (axKey n, ax_role n, ax_name n,
                     if ax_role n = ''option'' \<and> ax_name n \<noteq> None \<and> ax_name n \<noteq> Some []
                     then map_option StrValue (ax_name n) else ax_value n))
           (axNodes tree0) =
   [(''L_1'', ''RootWebArea'', Some ''t'', None),
    (''L_2'', ''button'', Some ''Go'', None),
    (''L_3'', ''option'', Some ''A'', Some (StrValue ''A''))]" by code_simp
  with createTextSnapshot_option_value [OF session_captures(1) session_captures(3)
      session_captures(5) session_captures(6)]
  show ?thesis by simp
qed

text \<open>
  C9 as stated fails: the captured option node exposes the value \<open>b\<close> and has the
  name \<open>A\<close>; its snapshot value is \<open>A\<close>, the exposed value is not kept.
\<close>

theorem option_value_overwritten:
  "ax_role (ax_children tree0 ! 1) = ''option'' \<and>
   ax_value (ax_children tree0 ! 1) = Some (StrValue ''b'') \<and>
   axKey (ax_children tree0 ! 1) = ''L_3'' \<and>
   map_option snapKey (getAXNodeByUid (fst w3) ''1_2'') = Some ''L_3'' \<and>
   map_option node_value (getAXNodeByUid (fst w3) ''1_2'') = Some (Some (StrValue ''A''))"
  by code_simp

end
